theory Spec2Isabelle
  imports
    Main
    "HOL-Library.AList"
    "HOL-Library.List_Lexorder"
    "HOL-Library.Product_Lexorder"
begin


section \<open>JavaScript values used by the migrate command\<close>

text \<open>
  Exceptions are values. \<open>TypeError\<close> is what the semver package throws on a string that
  is not a version (and what a property access on \<open>null\<close> throws), \<open>Error\<close> carries
  the message of an \<open>Error\<close> object, and \<open>OutOfFuel\<close> is the model's own: the planner
  recursion is bounded by a fuel argument.
\<close>

datatype error = TypeError string | Error string | OutOfFuel

text \<open>Truthiness of an optional string: \<open>undefined\<close>, \<open>null\<close> and \<open>""\<close> are falsy.\<close>

definition truthy :: "string option \<Rightarrow> bool" where
  "truthy v = (case v of None \<Rightarrow> False | Some s \<Rightarrow> s \<noteq> [])"

text \<open>\<open>s.split(c)\<close> for a one-character separator: \<open>"".split("-")\<close> is \<open>[""]\<close>.\<close>

fun js_split :: "char \<Rightarrow> string \<Rightarrow> string list" where
  "js_split c [] = [[]]"
| "js_split c (x # xs) =
     (if x = c then [] # js_split c xs
      else (case js_split c xs of [] \<Rightarrow> [[x]] | y # ys \<Rightarrow> (x # y) # ys))"

text \<open>Array destructuring: the element at an index, \<open>undefined\<close> past the end.\<close>

fun at_index :: "'a list \<Rightarrow> nat \<Rightarrow> 'a option" where
  "at_index [] i = None"
| "at_index (x # xs) 0 = Some x"
| "at_index (x # xs) (Suc i) = at_index xs i"

text \<open>\<open>`${x || 0}`\<close> for an optional string \<open>x\<close>.\<close>

definition or_zero :: "string option \<Rightarrow> string" where
  "or_zero v = (if truthy v then the v else ''0'')"

text \<open>\<open>s.includes(t)\<close>.\<close>

fun js_includes :: "string \<Rightarrow> string \<Rightarrow> bool" where
  "js_includes [] t = (t = [])"
| "js_includes (x # xs) t = (take (length t) (x # xs) = t \<or> js_includes xs t)"

section \<open>The semver package, strict mode\<close>

text \<open>
  Library model: the npm package \<open>semver\<close> is a dependency, not code of this repository.
  The functions below follow its strict (non-loose) mode: a version is
  \<open>v?MAJOR.MINOR.PATCH(-PRERELEASE)?(+BUILD)?\<close>, numeric identifiers have no leading zero
  and do not exceed \<open>MAX_SAFE_INTEGER\<close>, and the constructor trims the string and refuses
  more than 256 characters. \<open>parseSemVer\<close> is \<open>new SemVer(version)\<close>, with \<open>None\<close> for the
  \<open>TypeError\<close> it throws. Strings are ASCII: a character is its code unit, and the white
  space that \<open>trim\<close> removes is the ASCII one. Numbers are integers, so two numeric
  identifiers beyond \<open>MAX_SAFE_INTEGER\<close> are told apart where JavaScript would round them.
\<close>

datatype pre_id = Num int | Str string

record SemVer =
  major :: int
  minor :: int
  patch :: int
  prerelease :: "pre_id list"
  build :: "string list"

text \<open>The code unit of a character, as \<open>charCodeAt\<close> gives it.\<close>

definition code_unit :: "char \<Rightarrow> int" where
  "code_unit c = of_char c"

definition is_digit :: "char \<Rightarrow> bool" where
  "is_digit c = (48 \<le> code_unit c \<and> code_unit c \<le> 57)"

definition is_idchar :: "char \<Rightarrow> bool" where
  "is_idchar c = (is_digit c \<or> (97 \<le> code_unit c \<and> code_unit c \<le> 122)
     \<or> (65 \<le> code_unit c \<and> code_unit c \<le> 90) \<or> c = CHR ''-'')"

definition is_space :: "char \<Rightarrow> bool" where
  "is_space c = (code_unit c \<in> {9, 10, 11, 12, 13, 32})"

definition trim :: "string \<Rightarrow> string" where
  "trim s = rev (dropWhile is_space (rev (dropWhile is_space s)))"

definition all_digits :: "string \<Rightarrow> bool" where
  "all_digits s = (s \<noteq> [] \<and> list_all is_digit s)"

text \<open>\<open>0|[1-9]\d*\<close>\<close>

definition numericIdentifier :: "string \<Rightarrow> bool" where
  "numericIdentifier s = (all_digits s \<and> (s = ''0'' \<or> hd s \<noteq> CHR ''0''))"

definition digit_value :: "char \<Rightarrow> int" where
  "digit_value c = code_unit c - 48"

definition to_number :: "string \<Rightarrow> int" where
  "to_number s = foldl (\<lambda>n c. 10 * n + digit_value c) 0 s"

definition MAX_SAFE_INTEGER :: int where
  "MAX_SAFE_INTEGER = 9007199254740991"

definition MAX_LENGTH :: int where
  "MAX_LENGTH = 256"

text \<open>A prerelease identifier: numeric, or \<open>\d*[a-zA-Z-][a-zA-Z0-9-]*\<close>.\<close>

definition prereleaseIdentifier :: "string \<Rightarrow> bool" where
  "prereleaseIdentifier s =
     (s \<noteq> [] \<and> list_all is_idchar s \<and> (if all_digits s then numericIdentifier s else True))"

definition buildIdentifier :: "string \<Rightarrow> bool" where
  "buildIdentifier s = (s \<noteq> [] \<and> list_all is_idchar s)"

definition to_identifier :: "string \<Rightarrow> pre_id" where
  "to_identifier s = (if all_digits s then Num (to_number s) else Str s)"

text \<open>The part before the first occurrence of a character, and the part after it if any.\<close>

fun cut_at :: "char \<Rightarrow> string \<Rightarrow> string \<times> string option" where
  "cut_at c [] = ([], None)"
| "cut_at c (x # xs) =
     (if x = c then ([], Some xs)
      else (case cut_at c xs of (a, b) \<Rightarrow> (x # a, b)))"

definition parseMain :: "string \<Rightarrow> (int \<times> int \<times> int) option" where
  "parseMain s =
     (case js_split CHR ''.'' s of
        [a, b, c] \<Rightarrow>
          if numericIdentifier a \<and> numericIdentifier b \<and> numericIdentifier c
             \<and> to_number a \<le> MAX_SAFE_INTEGER \<and> to_number b \<le> MAX_SAFE_INTEGER
             \<and> to_number c \<le> MAX_SAFE_INTEGER
          then Some (to_number a, to_number b, to_number c)
          else None
      | _ \<Rightarrow> None)"

definition parsePrerelease :: "string option \<Rightarrow> pre_id list option" where
  "parsePrerelease p =
     (case p of
        None \<Rightarrow> Some []
      | Some s \<Rightarrow>
          if list_all prereleaseIdentifier (js_split CHR ''.'' s)
          then Some (map to_identifier (js_split CHR ''.'' s))
          else None)"

definition parseBuild :: "string option \<Rightarrow> string list option" where
  "parseBuild p =
     (case p of
        None \<Rightarrow> Some []
      | Some s \<Rightarrow>
          if list_all buildIdentifier (js_split CHR ''.'' s)
          then Some (js_split CHR ''.'' s)
          else None)"

definition strip_v :: "string \<Rightarrow> string" where
  "strip_v s = (case s of [] \<Rightarrow> [] | c # r \<Rightarrow> if c = CHR ''v'' then r else c # r)"

definition parseSemVer :: "string \<Rightarrow> SemVer option" where
  "parseSemVer version =
     (if int (length version) > MAX_LENGTH then None
      else
        (case cut_at CHR ''+'' (strip_v (trim version)) of
           (mp, b) \<Rightarrow>
             (case cut_at CHR ''-'' mp of
                (m, p) \<Rightarrow>
                  (case (parseMain m, parsePrerelease p, parseBuild b) of
                     (Some (x, y, z), Some pre, Some bld) \<Rightarrow>
                       Some \<lparr>major = x, minor = y, patch = z, prerelease = pre, build = bld\<rparr>
                   | _ \<Rightarrow> None))))"

text \<open>
  \<open>compareIdentifiers\<close>: two numbers by value, a number before a string, two strings by
  JavaScript's \<open><\<close> (code unit order).
\<close>

definition string_less :: "string \<Rightarrow> string \<Rightarrow> bool" where
  "string_less a b = (map code_unit a < map code_unit b)"

fun compareIdentifiers :: "pre_id \<Rightarrow> pre_id \<Rightarrow> int" where
  "compareIdentifiers (Num a) (Num b) = (if a = b then 0 else if a < b then -1 else 1)"
| "compareIdentifiers (Num a) (Str b) = -1"
| "compareIdentifiers (Str a) (Num b) = 1"
| "compareIdentifiers (Str a) (Str b) =
     (if a = b then 0 else if string_less a b then -1 else 1)"

definition compareNumbers :: "int \<Rightarrow> int \<Rightarrow> int" where
  "compareNumbers a b = (if a = b then 0 else if a < b then -1 else 1)"

definition compareMain :: "SemVer \<Rightarrow> SemVer \<Rightarrow> int" where
  "compareMain x y =
     (if compareNumbers (major x) (major y) \<noteq> 0 then compareNumbers (major x) (major y)
      else if compareNumbers (minor x) (minor y) \<noteq> 0 then compareNumbers (minor x) (minor y)
      else compareNumbers (patch x) (patch y))"

fun comparePreLoop :: "pre_id list \<Rightarrow> pre_id list \<Rightarrow> int" where
  "comparePreLoop [] [] = 0"
| "comparePreLoop (a # as) [] = 1"
| "comparePreLoop [] (b # bs) = -1"
| "comparePreLoop (a # as) (b # bs) =
     (if a = b then comparePreLoop as bs else compareIdentifiers a b)"

definition comparePre :: "SemVer \<Rightarrow> SemVer \<Rightarrow> int" where
  "comparePre x y =
     (if prerelease x \<noteq> [] \<and> prerelease y = [] then -1
      else if prerelease x = [] \<and> prerelease y \<noteq> [] then 1
      else if prerelease x = [] \<and> prerelease y = [] then 0
      else comparePreLoop (prerelease x) (prerelease y))"

definition compare :: "SemVer \<Rightarrow> SemVer \<Rightarrow> int" where
  "compare x y = (if compareMain x y \<noteq> 0 then compareMain x y else comparePre x y)"

text \<open>
  The exported comparators take strings and construct both versions first, so they throw
  on a string that is not a version.
\<close>

definition semver_compare :: "string \<Rightarrow> string \<Rightarrow> error + int" where
  "semver_compare a b =
     (case parseSemVer a of
        None \<Rightarrow> Inl (TypeError (''Invalid Version: '' @ a))
      | Some x \<Rightarrow>
          (case parseSemVer b of
             None \<Rightarrow> Inl (TypeError (''Invalid Version: '' @ b))
           | Some y \<Rightarrow> Inr (compare x y)))"

definition semver_gt :: "string \<Rightarrow> string \<Rightarrow> error + bool" where
  "semver_gt a b = (case semver_compare a b of Inl e \<Rightarrow> Inl e | Inr c \<Rightarrow> Inr (c > 0))"

definition semver_gte :: "string \<Rightarrow> string \<Rightarrow> error + bool" where
  "semver_gte a b = (case semver_compare a b of Inl e \<Rightarrow> Inl e | Inr c \<Rightarrow> Inr (c \<ge> 0))"

definition semver_lt :: "string \<Rightarrow> string \<Rightarrow> error + bool" where
  "semver_lt a b = (case semver_compare a b of Inl e \<Rightarrow> Inl e | Inr c \<Rightarrow> Inr (c < 0))"

definition semver_lte :: "string \<Rightarrow> string \<Rightarrow> error + bool" where
  "semver_lte a b = (case semver_compare a b of Inl e \<Rightarrow> Inl e | Inr c \<Rightarrow> Inr (c \<le> 0))"

text \<open>
  \<open>valid(v)\<close> returns the version or \<open>null\<close>; only its truthiness is used. It tests the
  string against the grammar as it stands, without trimming.
\<close>

definition semver_valid :: "string \<Rightarrow> bool" where
  "semver_valid v = (trim v = v \<and> parseSemVer v \<noteq> None)"

section \<open>normalizeVersion\<close>

definition variationsToCheck :: "string \<Rightarrow> string list" where
  "variationsToCheck version =
     (let parts = js_split CHR ''-'' version;
          semver = at_index parts 0;
          prereleaseTag = at_index parts 1;
          nums = js_split CHR ''.'' (the semver);
          major = at_index nums 0;
          minor = at_index nums 1;
          patch = at_index nums 2;
          newSemver = or_zero major @ ''.'' @ or_zero minor @ ''.'' @ or_zero patch;
          newVersion = (if truthy prereleaseTag then newSemver @ ''-'' @ the prereleaseTag
                        else newSemver);
          withoutPatch = or_zero major @ ''.'' @ or_zero minor @ ''.0'';
          withoutPatchAndMinor = or_zero major @ ''.0.0''
      in [newVersion, newSemver, withoutPatch, withoutPatchAndMinor])"

text \<open>The \<open>for\<close> loop with its \<open>try\<close>/\<open>catch\<close>: a variation on which \<open>gt\<close> throws is skipped.\<close>

fun firstAboveZero :: "string list \<Rightarrow> string" where
  "firstAboveZero [] = ''0.0.0''"
| "firstAboveZero (variation # rest) =
     (case semver_gt variation ''0.0.0'' of
        Inr True \<Rightarrow> variation
      | Inr False \<Rightarrow> firstAboveZero rest
      | Inl e \<Rightarrow> firstAboveZero rest)"

definition normalizeVersion :: "string \<Rightarrow> string" where
  "normalizeVersion version = firstAboveZero (variationsToCheck version)"

section \<open>Data of the planner\<close>

text \<open>
  The interfaces \<open>PackageJsonUpdateForPackage\<close>, \<open>PackageJsonUpdates\<close>,
  \<open>MigrationsJsonEntry\<close>, \<open>MigrationsJson\<close> and \<open>ArrayPackageGroup\<close> are imported by the
  source from \<open>config/misc-interfaces\<close> and \<open>utils/package-json\<close>; their fields are
  modelled here as the code reads them. An optional field is an \<open>option\<close>. A JavaScript
  object whose keys are enumerated (\<open>Object.keys\<close>, \<open>Object.entries\<close>,
  \<open>Object.values\<close>) is an association list with distinct keys in insertion order: reading
  is \<open>map_of\<close>, writing is \<open>AList.update\<close>, which replaces in place or appends. (A key
  that is an array index, which JavaScript would enumerate before the others, is not
  modelled apart; no theorem below depends on the order of the keys.) An object that is
  only read by key is a map.
\<close>

type_synonym 'v obj = "(string \<times> 'v) list"

text \<open>\<open>addToPackageJson?: boolean | 'dependencies' | 'devDependencies'\<close>\<close>

datatype addTo = AddUndefined | AddBool bool | AddSection string

definition addTo_truthy :: "addTo \<Rightarrow> bool" where
  "addTo_truthy a = (case a of AddUndefined \<Rightarrow> False | AddBool b \<Rightarrow> b | AddSection s \<Rightarrow> s \<noteq> [])"

text \<open>\<open>x || false\<close>\<close>

definition or_false :: "addTo \<Rightarrow> addTo" where
  "or_false a = (if addTo_truthy a then a else AddBool False)"

record PackageUpdate =
  pu_version :: string
  pu_ifPackageInstalled :: "string option"
  pu_alwaysAddToPackageJson :: "bool option"
  pu_addToPackageJson :: addTo

record PackageJsonUpdate =
  pju_version :: string
  pju_packages :: "PackageUpdate obj option"
  pju_x_prompt :: "string option"
  pju_requires :: "string obj option"

record MigrationsJsonEntry =
  mig_version :: "string option"
  mig_description :: "string option"
  mig_cli :: "string option"
  mig_implementation :: "string option"
  mig_factory :: "string option"
  mig_requires :: "string obj option"

text \<open>An entry of the migrations list: \<open>{ ...migration, package, name }\<close>.\<close>

record Migration = MigrationsJsonEntry +
  mig_package :: string
  mig_name :: string

record PackageGroupEntry =
  pg_package :: string
  pg_version :: string

record ResolvedMigrationConfiguration =
  cfg_version :: string
  cfg_packageGroup :: "PackageGroupEntry list option"
  cfg_packageJsonUpdates :: "PackageJsonUpdate obj option"
  cfg_generators :: "MigrationsJsonEntry obj option"

record PackageJson =
  dependencies :: "(string \<rightharpoonup> string) option"
  devDependencies :: "(string \<rightharpoonup> string) option"

text \<open>
  The read-only fields of the class \<open>Migrator\<close>, with what the class takes from outside the
  repository: \<open>satisfies\<close> is semver's \<open>satisfies(v, range, {includePrerelease: true})\<close>,
  \<open>clean\<close> and \<open>coerce\<close> are semver's (the version they return, \<open>None\<close> for \<open>null\<close>), and
  \<open>confirm\<close> is the user's answer to an \<open>x-prompt\<close> question. The fetcher is a function of
  the package and the version: its caches make it one within a run.
\<close>

record Migrator =
  packageJson :: PackageJson
  getInstalledPackageVersion :: "string \<Rightarrow> (string \<rightharpoonup> string) option \<Rightarrow> string option"
  fetch :: "string \<Rightarrow> string \<Rightarrow> error + ResolvedMigrationConfiguration"
  to_versions :: "string \<rightharpoonup> string"
  interactive :: "bool option"
  excludeAppliedMigrations :: "bool option"
  satisfies :: "string \<Rightarrow> string \<Rightarrow> bool"
  clean :: "string \<Rightarrow> string option"
  coerce :: "string \<Rightarrow> string option"
  confirm :: "string \<Rightarrow> bool"

text \<open>
  The fields the planner writes: \<open>installedPkgVersionOverrides\<close> (the \<open>--from\<close> values,
  extended by the package group expansion), \<open>packageUpdates\<close> and \<open>collectedVersions\<close>.
\<close>

record MigratorState =
  installedPkgVersionOverrides :: "string \<rightharpoonup> string"
  packageUpdates :: "PackageUpdate obj"
  collectedVersions :: "string \<rightharpoonup> string"

section \<open>The methods of Migrator\<close>

definition cleanSemver :: "Migrator \<Rightarrow> string \<Rightarrow> string option" where
  "cleanSemver M version = (case clean M version of Some v \<Rightarrow> Some v | None \<Rightarrow> coerce M version)"

definition getPkgVersion :: "Migrator \<Rightarrow> MigratorState \<Rightarrow> string \<Rightarrow> string option" where
  "getPkgVersion M st pkg = getInstalledPackageVersion M pkg (Some (installedPkgVersionOverrides st))"

text \<open>
  The private comparators \<open>gt\<close> and \<open>lte\<close> normalize both sides first. semver's \<open>gt\<close> and
  \<open>lte\<close> throw on a string that is not a version; a normalized string always is one
  (lemma \<open>Migrator_compare_no_throw\<close>), so the \<open>Inl\<close> branch below is never taken.
\<close>

definition Migrator_gt :: "string \<Rightarrow> string \<Rightarrow> bool" where
  "Migrator_gt v1 v2 =
     (case semver_gt (normalizeVersion v1) (normalizeVersion v2) of Inr b \<Rightarrow> b | Inl e \<Rightarrow> False)"

definition Migrator_lte :: "string \<Rightarrow> string \<Rightarrow> bool" where
  "Migrator_lte v1 v2 =
     (case semver_lte (normalizeVersion v1) (normalizeVersion v2) of Inr b \<Rightarrow> b | Inl e \<Rightarrow> False)"

definition addPackageUpdate :: "MigratorState \<Rightarrow> string \<Rightarrow> PackageUpdate \<Rightarrow> MigratorState" where
  "addPackageUpdate st name packageUpdate =
     (case map_of (packageUpdates st) name of
        None \<Rightarrow> st\<lparr>packageUpdates := AList.update name packageUpdate (packageUpdates st)\<rparr>
      | Some existing \<Rightarrow>
          if Migrator_gt (pu_version packageUpdate) (pu_version existing)
          then st\<lparr>packageUpdates := AList.update name packageUpdate (packageUpdates st)\<rparr>
          else st)"

text \<open>\<open>satisfies\<close> on the result of \<open>cleanSemver\<close>: \<open>null\<close> satisfies nothing.\<close>

definition satisfies_cleaned :: "Migrator \<Rightarrow> string \<Rightarrow> string \<Rightarrow> bool" where
  "satisfies_cleaned M version versionRange =
     (case cleanSemver M version of None \<Rightarrow> False | Some v \<Rightarrow> satisfies M v versionRange)"

definition requirementMet ::
  "Migrator \<Rightarrow> MigratorState \<Rightarrow> PackageUpdate obj option \<Rightarrow> string \<times> string \<Rightarrow> bool" where
  "requirementMet M st extraPackageUpdatesToCheck req =
     (case req of (pkgName, versionRange) \<Rightarrow>
        (truthy (getPkgVersion M st pkgName)
           \<and> satisfies M (the (getPkgVersion M st pkgName)) versionRange)
        \<or> (case map_of (packageUpdates st) pkgName of
              None \<Rightarrow> False
            | Some u \<Rightarrow> pu_version u \<noteq> [] \<and> satisfies M (pu_version u) versionRange)
        \<or> (case extraPackageUpdatesToCheck of
              None \<Rightarrow> False
            | Some extra \<Rightarrow>
                (case map_of extra pkgName of
                   None \<Rightarrow> False
                 | Some u \<Rightarrow> pu_version u \<noteq> [] \<and> satisfies_cleaned M (pu_version u) versionRange)))"

definition areRequirementsMet ::
  "Migrator \<Rightarrow> MigratorState \<Rightarrow> string obj option \<Rightarrow> PackageUpdate obj option \<Rightarrow> bool" where
  "areRequirementsMet M st requirements extraPackageUpdatesToCheck =
     (case requirements of
        None \<Rightarrow> True
      | Some reqs \<Rightarrow>
          if reqs = [] then True
          else list_all (requirementMet M st extraPackageUpdatesToCheck) reqs)"

definition requirementUnmetWhenInstalled :: "Migrator \<Rightarrow> string \<times> string \<Rightarrow> bool" where
  "requirementUnmetWhenInstalled M req =
     (case req of (pkgName, versionRange) \<Rightarrow>
        \<not> truthy (getInstalledPackageVersion M pkgName None)
        \<or> \<not> satisfies M (the (getInstalledPackageVersion M pkgName None)) versionRange)"

definition wasMigrationSkipped :: "Migrator \<Rightarrow> string obj option \<Rightarrow> bool" where
  "wasMigrationSkipped M requirements =
     (case requirements of
        None \<Rightarrow> False
      | Some reqs \<Rightarrow>
          if reqs = [] then False
          else list_ex (requirementUnmetWhenInstalled M) reqs)"

text \<open>
  \<open>this.packageUpdates[packageName].version\<close> is read only when the two conjuncts before
  it hold; with no plan entry for the package the read throws.
\<close>

definition isMigrationForHigherVersionThanWhatIsInstalled ::
  "Migrator \<Rightarrow> MigratorState \<Rightarrow> string \<Rightarrow> 'a MigrationsJsonEntry_scheme \<Rightarrow> error + bool" where
  "isMigrationForHigherVersionThanWhatIsInstalled M st packageName migration =
     (let installedVersion = getInstalledPackageVersion M packageName None in
      if \<not> truthy (mig_version migration) then Inr False
      else if \<not> (\<not> truthy installedVersion
                  \<or> Migrator_gt (the (mig_version migration)) (the installedVersion))
      then Inr False
      else (case map_of (packageUpdates st) packageName of
              None \<Rightarrow> Inl (TypeError ''Cannot read properties of undefined (reading version)'')
            | Some u \<Rightarrow> Inr (Migrator_lte (the (mig_version migration)) (pu_version u))))"

definition areMigrationRequirementsMet ::
  "Migrator \<Rightarrow> MigratorState \<Rightarrow> string \<Rightarrow> 'a MigrationsJsonEntry_scheme \<Rightarrow> error + bool" where
  "areMigrationRequirementsMet M st packageName migration =
     (if excludeAppliedMigrations M \<noteq> Some True
      then Inr (areRequirementsMet M st (mig_requires migration) None)
      else if wasMigrationSkipped M (mig_requires migration)
      then Inr (areRequirementsMet M st (mig_requires migration) None)
      else (case isMigrationForHigherVersionThanWhatIsInstalled M st packageName migration of
              Inl e \<Rightarrow> Inl e
            | Inr False \<Rightarrow> Inr False
            | Inr True \<Rightarrow> Inr (areRequirementsMet M st (mig_requires migration) None)))"

subsection \<open>filterPackageJsonUpdates\<close>

definition dependency_truthy :: "(string \<rightharpoonup> string) option \<Rightarrow> string \<Rightarrow> bool" where
  "dependency_truthy deps name = (case deps of None \<Rightarrow> False | Some d \<Rightarrow> truthy (d name))"

text \<open>The predicate of \<open>.filter\<close> on the entries of \<open>packageJsonUpdate.packages\<close>.\<close>

definition keepPackageUpdate :: "Migrator \<Rightarrow> MigratorState \<Rightarrow> string \<times> PackageUpdate \<Rightarrow> bool" where
  "keepPackageUpdate M st entry =
     (case entry of (packageName, packageUpdate) \<Rightarrow>
        (if truthy (pu_ifPackageInstalled packageUpdate)
         then truthy (getPkgVersion M st (the (pu_ifPackageInstalled packageUpdate)))
         else True)
        \<and> (pu_alwaysAddToPackageJson packageUpdate = Some True
             \<or> addTo_truthy (pu_addToPackageJson packageUpdate)
             \<or> dependency_truthy (dependencies (packageJson M)) packageName
             \<or> dependency_truthy (devDependencies (packageJson M)) packageName)
        \<and> (if truthy (collectedVersions st packageName)
             then Migrator_gt (pu_version packageUpdate) (the (collectedVersions st packageName))
             else True))"

text \<open>The object the \<open>.reduce\<close> step stores for a retained entry.\<close>

definition rewritePackageUpdate :: "PackageUpdate \<Rightarrow> PackageUpdate" where
  "rewritePackageUpdate packageUpdate =
     \<lparr>pu_version = pu_version packageUpdate,
      pu_ifPackageInstalled = None,
      pu_alwaysAddToPackageJson = None,
      pu_addToPackageJson =
        (if pu_alwaysAddToPackageJson packageUpdate = Some True then AddSection ''dependencies''
         else or_false (pu_addToPackageJson packageUpdate))\<rparr>"

definition filterPackages :: "Migrator \<Rightarrow> MigratorState \<Rightarrow> PackageUpdate obj \<Rightarrow> PackageUpdate obj" where
  "filterPackages M st packages =
     foldl (\<lambda>acc entry. AList.update (fst entry) (rewritePackageUpdate (snd entry)) acc) []
       (filter (keepPackageUpdate M st) packages)"

text \<open>
  The loop over \<open>Object.values(packageJsonUpdates)\<close>. \<open>this.lte(version, null)\<close> throws
  inside \<open>normalizeVersion\<close>, so the installed version must be there when an update with
  a \<open>packages\<close> field is reached.
\<close>

fun filterPackageJsonUpdates_loop ::
  "Migrator \<Rightarrow> MigratorState \<Rightarrow> string \<Rightarrow> string \<Rightarrow> PackageJsonUpdate list
     \<Rightarrow> error + PackageJsonUpdate list" where
  "filterPackageJsonUpdates_loop M st packageName targetVersion [] = Inr []"
| "filterPackageJsonUpdates_loop M st packageName targetVersion (packageJsonUpdate # rest) =
     (case pju_packages packageJsonUpdate of
        None \<Rightarrow> filterPackageJsonUpdates_loop M st packageName targetVersion rest
      | Some packages \<Rightarrow>
          (case getPkgVersion M st packageName of
             None \<Rightarrow> Inl (TypeError ''Cannot read properties of null (reading split)'')
           | Some installed \<Rightarrow>
               if Migrator_lte (pju_version packageJsonUpdate) installed
                  \<or> Migrator_gt (pju_version packageJsonUpdate) targetVersion
               then filterPackageJsonUpdates_loop M st packageName targetVersion rest
               else if filterPackages M st packages \<noteq> []
               then (case filterPackageJsonUpdates_loop M st packageName targetVersion rest of
                       Inl e \<Rightarrow> Inl e
                     | Inr filtered \<Rightarrow>
                         Inr (packageJsonUpdate
                                \<lparr>pju_packages := Some (filterPackages M st packages)\<rparr> # filtered))
               else filterPackageJsonUpdates_loop M st packageName targetVersion rest))"

definition filterPackageJsonUpdates ::
  "Migrator \<Rightarrow> MigratorState \<Rightarrow> PackageJsonUpdate obj \<Rightarrow> string \<Rightarrow> string
     \<Rightarrow> error + PackageJsonUpdate list" where
  "filterPackageJsonUpdates M st packageJsonUpdates packageName targetVersion =
     filterPackageJsonUpdates_loop M st packageName targetVersion (map snd packageJsonUpdates)"

subsection \<open>getPackageJsonUpdatesFromPackageGroup\<close>

definition group_entry :: "string \<Rightarrow> string \<Rightarrow> PackageGroupEntry" where
  "group_entry p v = \<lparr>pg_package = p, pg_version = v\<rparr>"

definition LEGACY_NRWL_PACKAGE_GROUP :: "PackageGroupEntry list" where
  "LEGACY_NRWL_PACKAGE_GROUP =
     [group_entry ''@nrwl/workspace'' ''*'',
      group_entry ''@nrwl/angular'' ''*'',
      group_entry ''@nrwl/cypress'' ''*'',
      group_entry ''@nrwl/devkit'' ''*'',
      group_entry ''@nrwl/eslint-plugin-nx'' ''*'',
      group_entry ''@nrwl/express'' ''*'',
      group_entry ''@nrwl/jest'' ''*'',
      group_entry ''@nrwl/linter'' ''*'',
      group_entry ''@nrwl/nest'' ''*'',
      group_entry ''@nrwl/next'' ''*'',
      group_entry ''@nrwl/node'' ''*'',
      group_entry ''@nrwl/nx-plugin'' ''*'',
      group_entry ''@nrwl/react'' ''*'',
      group_entry ''@nrwl/storybook'' ''*'',
      group_entry ''@nrwl/web'' ''*'',
      group_entry ''@nrwl/js'' ''*'',
      group_entry ''@nrwl/cli'' ''*'',
      group_entry ''@nrwl/nx-cloud'' ''latest'',
      group_entry ''@nrwl/react-native'' ''*'',
      group_entry ''@nrwl/detox'' ''*'',
      group_entry ''@nrwl/expo'' ''*'']"

text \<open>The entry the loop stores in \<open>packages\<close> for one member of the group.\<close>

definition groupPackageUpdate :: "string \<Rightarrow> PackageGroupEntry \<Rightarrow> PackageUpdate" where
  "groupPackageUpdate targetVersion packageConfig =
     \<lparr>pu_version = (if pg_version packageConfig = ''*'' then targetVersion
                     else pg_version packageConfig),
      pu_ifPackageInstalled = None,
      pu_alwaysAddToPackageJson = Some False,
      pu_addToPackageJson = AddUndefined\<rparr>"

text \<open>
  The \<open>for\<close> loop over the group: it fills \<open>packages\<close> and, for a \<open>"*"\<close> member of a
  package with a \<open>--from\<close> override, gives the member that override unless it has one
  (\<open>??=\<close>).
\<close>

fun packageGroup_loop ::
  "string \<Rightarrow> string \<Rightarrow> PackageGroupEntry list \<Rightarrow> PackageUpdate obj \<times> (string \<rightharpoonup> string)
     \<Rightarrow> PackageUpdate obj \<times> (string \<rightharpoonup> string)" where
  "packageGroup_loop packageName targetVersion [] acc = acc"
| "packageGroup_loop packageName targetVersion (packageConfig # rest) (packages, overrides) =
     packageGroup_loop packageName targetVersion rest
       (AList.update (pg_package packageConfig)
          (groupPackageUpdate targetVersion packageConfig) packages,
        (if pg_version packageConfig = ''*'' \<and> truthy (overrides packageName)
         then (case overrides (pg_package packageConfig) of
                 None \<Rightarrow> overrides(pg_package packageConfig := overrides packageName)
               | Some v \<Rightarrow> overrides)
         else overrides))"

text \<open>
  The group the expansion uses. \<open>lt\<close> is semver's own and is evaluated only for
  \<open>@nrwl/workspace\<close>; it throws on a target version that is not a version.
\<close>

definition selectPackageGroup ::
  "string \<Rightarrow> string \<Rightarrow> ResolvedMigrationConfiguration \<Rightarrow> error + PackageGroupEntry list" where
  "selectPackageGroup packageName targetVersion migrationConfig =
     (let own = (case cfg_packageGroup migrationConfig of None \<Rightarrow> [] | Some g \<Rightarrow> g) in
      if packageName = ''@nrwl/workspace''
      then (case semver_lt targetVersion ''14.0.0-beta.0'' of
              Inl e \<Rightarrow> Inl e
            | Inr True \<Rightarrow> Inr LEGACY_NRWL_PACKAGE_GROUP
            | Inr False \<Rightarrow> Inr own)
      else Inr own)"

text \<open>
  The method mutates the fetched document and the overrides; the model returns the order
  of the group, the document with the synthetic entry and the state. The fetcher's cache
  hands the mutated document to a later fetch of the same package and version. The second
  phase reads only its \<open>generators\<close>, and a second visit of the first phase reads only its
  \<open>version\<close> before the fixed-point test stops it (the version, when it is a semver
  version, was collected at the first visit); neither field is mutated, so \<open>fetch\<close> is
  modelled as a function.
\<close>

definition getPackageJsonUpdatesFromPackageGroup ::
  "MigratorState \<Rightarrow> string \<Rightarrow> string \<Rightarrow> ResolvedMigrationConfiguration
     \<Rightarrow> error + (string list \<times> ResolvedMigrationConfiguration \<times> MigratorState)" where
  "getPackageJsonUpdatesFromPackageGroup st packageName targetVersion migrationConfig =
     (case selectPackageGroup packageName targetVersion migrationConfig of
        Inl e \<Rightarrow> Inl e
      | Inr packageGroup \<Rightarrow>
          if packageGroup = [] then Inr ([], migrationConfig, st)
          else
            (case packageGroup_loop packageName targetVersion packageGroup
                    ([], installedPkgVersionOverrides st) of
               (packages, overrides) \<Rightarrow>
                 Inr (map pg_package packageGroup,
                      migrationConfig
                        \<lparr>cfg_packageJsonUpdates :=
                           Some (AList.update (targetVersion @ ''--PackageGroup'')
                                   \<lparr>pju_version = targetVersion,
                                    pju_packages = Some packages,
                                    pju_x_prompt = None,
                                    pju_requires = None\<rparr>
                                   (case cfg_packageJsonUpdates migrationConfig of
                                      None \<Rightarrow> []
                                    | Some updates \<Rightarrow> updates))\<rparr>,
                      st\<lparr>installedPkgVersionOverrides := overrides\<rparr>)))"

definition getPackageJsonUpdatesFromMigrationConfig ::
  "Migrator \<Rightarrow> MigratorState \<Rightarrow> string \<Rightarrow> string \<Rightarrow> ResolvedMigrationConfiguration
     \<Rightarrow> error + (PackageJsonUpdate list \<times> string list \<times> MigratorState)" where
  "getPackageJsonUpdatesFromMigrationConfig M st packageName targetVersion migrationConfig =
     (case getPackageJsonUpdatesFromPackageGroup st packageName targetVersion migrationConfig of
        Inl e \<Rightarrow> Inl e
      | Inr (packageGroupOrder, config, st') \<Rightarrow>
          (case cfg_packageJsonUpdates config of
             None \<Rightarrow> Inr ([], packageGroupOrder, st')
           | Some updates \<Rightarrow>
               if \<not> truthy (getPkgVersion M st' packageName)
               then Inr ([], packageGroupOrder, st')
               else (case filterPackageJsonUpdates M st' updates packageName targetVersion of
                       Inl e \<Rightarrow> Inl e
                     | Inr packageJsonUpdates \<Rightarrow>
                         Inr (packageJsonUpdates, packageGroupOrder, st'))))"

subsection \<open>populatePackageJsonUpdatesAndGetPackagesToCheck\<close>

text \<open>
  The planner is asynchronous: \<open>Promise.all\<close> over \<open>.map\<close> starts the calls for all
  children, each running up to its first \<open>await\<close> (the fetch) before the next one starts,
  and resumes them as their fetches resolve. The model fixes one schedule: it runs the
  children one after the other in the order of the entries, each to its end, threading the
  state; an exception ends the run with \<open>Inl\<close>. Under another schedule the plan can receive
  its keys in another order, and of two calls for one package another one can be the first
  to pass the check on \<open>collectedVersions\<close>. The facts below about one step
  (\<open>addPackageUpdate\<close>, the check on \<open>collectedVersions\<close>, the branch for a package that is
  not installed) concern code that runs without an \<open>await\<close> in between; the facts about a
  whole run are facts about the schedule of the model. In the example of this file the one
  child that is not installed, which the code records before any fetch resolves, is the
  first of the children, so the model's order of keys is the one the code produces when
  the fetches resolve in the order they were issued. The
  recursion follows the fetched documents and need not end, so it is bounded by fuel.
\<close>

type_synonym packagesToCheck = "(string \<times> PackageJsonUpdate list) list"

definition error_message :: "error \<Rightarrow> string option" where
  "error_message e = (case e of TypeError m \<Rightarrow> Some m | Error m \<Rightarrow> Some m | OutOfFuel \<Rightarrow> None)"

text \<open>The \<open>catch\<close> around the fetch.\<close>

definition rethrowFetchError :: "error \<Rightarrow> error" where
  "rethrowFetchError e =
     (case error_message e of
        None \<Rightarrow> e
      | Some m \<Rightarrow>
          if js_includes m ''No matching version''
          then Error (m @ [CHR 0x0A] @ ''Run migrate with --to='' @ [CHR 0x22]
                        @ ''package1@version1,package2@version2'' @ [CHR 0x22])
          else e)"

text \<open>
  The fixed-point test: \<open>collectedVersions[pkg] && gte(collectedVersions[pkg], targetVersion)\<close>,
  with semver's own \<open>gte\<close>.
\<close>

definition alreadyCollected :: "MigratorState \<Rightarrow> string \<Rightarrow> string \<Rightarrow> error + bool" where
  "alreadyCollected st targetPackage targetVersion =
     (if truthy (collectedVersions st targetPackage)
      then semver_gte (the (collectedVersions st targetPackage)) targetVersion
      else Inr False)"

definition shouldCheckUpdate :: "Migrator \<Rightarrow> PackageJsonUpdate \<Rightarrow> bool" where
  "shouldCheckUpdate M packageJsonUpdate =
     ((interactive M = Some True \<and> truthy (pju_x_prompt packageJsonUpdate))
      \<or> (case pju_requires packageJsonUpdate of None \<Rightarrow> False | Some r \<Rightarrow> r \<noteq> []))"

text \<open>\<open>{ ...m, ...c.packages }\<close>\<close>

definition spread :: "'v obj \<Rightarrow> 'v obj \<Rightarrow> 'v obj" where
  "spread m c = foldl (\<lambda>acc entry. AList.update (fst entry) (snd entry) acc) m c"

definition packageUpdatesToApply :: "PackageJsonUpdate list \<Rightarrow> PackageUpdate obj" where
  "packageUpdatesToApply packageJsonUpdates =
     foldl (\<lambda>m c. spread m (case pju_packages c of None \<Rightarrow> [] | Some ps \<Rightarrow> ps)) []
       packageJsonUpdates"

fun indexOf :: "string list \<Rightarrow> string \<Rightarrow> int" where
  "indexOf [] x = -1"
| "indexOf (y # ys) x = (if x = y then 0 else if indexOf ys x < 0 then -1 else indexOf ys x + 1)"

text \<open>The stable \<open>.sort\<close> by the position of the package in the group.\<close>

definition sortByPackageGroupOrder :: "string list \<Rightarrow> packagesToCheck \<Rightarrow> packagesToCheck" where
  "sortByPackageGroupOrder packageGroupOrder pkgs =
     sort_key (\<lambda>pkgUpdate. indexOf packageGroupOrder (fst pkgUpdate)) pkgs"

text \<open>\<open>Promise.all(entries.map(([name, update]) => recurse(name, update)))\<close>\<close>

fun populateAll ::
  "(MigratorState \<Rightarrow> string \<Rightarrow> PackageUpdate \<Rightarrow> error + (packagesToCheck \<times> MigratorState))
     \<Rightarrow> MigratorState \<Rightarrow> PackageUpdate obj \<Rightarrow> error + (packagesToCheck list \<times> MigratorState)" where
  "populateAll recurse st [] = Inr ([], st)"
| "populateAll recurse st (entry # rest) =
     (case recurse st (fst entry) (snd entry) of
        Inl e \<Rightarrow> Inl e
      | Inr (pkgs, st') \<Rightarrow>
          (case populateAll recurse st' rest of
             Inl e \<Rightarrow> Inl e
           | Inr (others, st'') \<Rightarrow> Inr (pkgs # others, st'')))"

text \<open>
  The method from \<open>this.addPackageUpdate\<close> after the fixed-point test to its end; \<open>recurse\<close>
  is the method itself, called for the children.
\<close>

definition populateFromConfig ::
  "(MigratorState \<Rightarrow> string \<Rightarrow> PackageUpdate \<Rightarrow> error + (packagesToCheck \<times> MigratorState))
     \<Rightarrow> Migrator \<Rightarrow> MigratorState \<Rightarrow> string \<Rightarrow> PackageUpdate \<Rightarrow> ResolvedMigrationConfiguration
     \<Rightarrow> error + (packagesToCheck \<times> MigratorState)" where
  "populateFromConfig recurse M st targetPackage target migrationConfig =
     (case getPackageJsonUpdatesFromMigrationConfig M
             (addPackageUpdate st targetPackage
                \<lparr>pu_version = cfg_version migrationConfig,
                 pu_ifPackageInstalled = None,
                 pu_alwaysAddToPackageJson = None,
                 pu_addToPackageJson = or_false (pu_addToPackageJson target)\<rparr>)
             targetPackage (cfg_version migrationConfig) migrationConfig of
        Inl e \<Rightarrow> Inl e
      | Inr (packageJsonUpdates, packageGroupOrder, st') \<Rightarrow>
          if packageJsonUpdates = [] then Inr ([], st')
          else if list_ex (shouldCheckUpdate M) packageJsonUpdates
          then Inr ([(targetPackage, packageJsonUpdates)], st')
          else
            (case populateAll recurse st' (packageUpdatesToApply packageJsonUpdates) of
               Inl e \<Rightarrow> Inl e
             | Inr (results, st'') \<Rightarrow>
                 Inr (sortByPackageGroupOrder packageGroupOrder
                        (concat (filter (\<lambda>pkgs. pkgs \<noteq> []) results)),
                      st'')))"

fun populatePackageJsonUpdatesAndGetPackagesToCheck ::
  "nat \<Rightarrow> Migrator \<Rightarrow> MigratorState \<Rightarrow> string \<Rightarrow> PackageUpdate
     \<Rightarrow> error + (packagesToCheck \<times> MigratorState)" where
  "populatePackageJsonUpdatesAndGetPackagesToCheck 0 M st targetPackage target = Inl OutOfFuel"
| "populatePackageJsonUpdatesAndGetPackagesToCheck (Suc fuel) M st targetPackage target =
     (if \<not> truthy (getPkgVersion M st targetPackage)
      then Inr ([], addPackageUpdate st targetPackage
                      \<lparr>pu_version = pu_version target,
                       pu_ifPackageInstalled = None,
                       pu_alwaysAddToPackageJson = None,
                       pu_addToPackageJson = or_false (pu_addToPackageJson target)\<rparr>)
      else
        (case fetch M targetPackage
                (if truthy (to_versions M targetPackage) then the (to_versions M targetPackage)
                 else pu_version target) of
           Inl e \<Rightarrow> Inl (rethrowFetchError e)
         | Inr migrationConfig \<Rightarrow>
             (case alreadyCollected st targetPackage (cfg_version migrationConfig) of
                Inl e \<Rightarrow> Inl e
              | Inr True \<Rightarrow> Inr ([], st)
              | Inr False \<Rightarrow>
                  populateFromConfig
                    (\<lambda>s name update.
                       populatePackageJsonUpdatesAndGetPackagesToCheck fuel M s name update)
                    M
                    (st\<lparr>collectedVersions :=
                         (collectedVersions st)(targetPackage \<mapsto> cfg_version migrationConfig)\<rparr>)
                    targetPackage target migrationConfig)))"

subsection \<open>buildPackageJsonUpdates\<close>

definition runPackageJsonUpdatesConfirmationPrompt :: "Migrator \<Rightarrow> string option \<Rightarrow> bool" where
  "runPackageJsonUpdatesConfirmationPrompt M confirmationPrompt =
     (if \<not> truthy confirmationPrompt then True else confirm M (the confirmationPrompt))"

text \<open>
  The inner loop over \<open>packageToCheck.updates\<close>, which fills \<open>filteredUpdates\<close>.
  \<open>Object.entries(undefined)\<close> throws.
\<close>

fun admitUpdates ::
  "Migrator \<Rightarrow> MigratorState \<Rightarrow> PackageJsonUpdate list \<Rightarrow> PackageUpdate obj
     \<Rightarrow> error + PackageUpdate obj" where
  "admitUpdates M st [] filteredUpdates = Inr filteredUpdates"
| "admitUpdates M st (packageUpdate # rest) filteredUpdates =
     (if areRequirementsMet M st (pju_requires packageUpdate) (Some filteredUpdates)
         \<and> (if interactive M = Some True
              then runPackageJsonUpdatesConfirmationPrompt M (pju_x_prompt packageUpdate)
              else True)
      then (case pju_packages packageUpdate of
              None \<Rightarrow> Inl (TypeError ''Cannot convert undefined or null to object'')
            | Some packages \<Rightarrow> admitUpdates M st rest (spread filteredUpdates packages))
      else admitUpdates M st rest filteredUpdates)"

fun buildAll ::
  "(MigratorState \<Rightarrow> string \<Rightarrow> PackageUpdate \<Rightarrow> error + MigratorState)
     \<Rightarrow> MigratorState \<Rightarrow> PackageUpdate obj \<Rightarrow> error + MigratorState" where
  "buildAll recurse st [] = Inr st"
| "buildAll recurse st (entry # rest) =
     (case recurse st (fst entry) (snd entry) of
        Inl e \<Rightarrow> Inl e
      | Inr st' \<Rightarrow> buildAll recurse st' rest)"

text \<open>The outer loop over \<open>packagesToCheck\<close>.\<close>

fun buildChecked ::
  "(MigratorState \<Rightarrow> string \<Rightarrow> PackageUpdate \<Rightarrow> error + MigratorState)
     \<Rightarrow> Migrator \<Rightarrow> MigratorState \<Rightarrow> packagesToCheck \<Rightarrow> error + MigratorState" where
  "buildChecked recurse M st [] = Inr st"
| "buildChecked recurse M st (packageToCheck # rest) =
     (case admitUpdates M st (snd packageToCheck) [] of
        Inl e \<Rightarrow> Inl e
      | Inr filteredUpdates \<Rightarrow>
          (case buildAll recurse st filteredUpdates of
             Inl e \<Rightarrow> Inl e
           | Inr st' \<Rightarrow> buildChecked recurse M st' rest))"

fun buildPackageJsonUpdates ::
  "nat \<Rightarrow> Migrator \<Rightarrow> MigratorState \<Rightarrow> string \<Rightarrow> PackageUpdate \<Rightarrow> error + MigratorState" where
  "buildPackageJsonUpdates 0 M st targetPackage target = Inl OutOfFuel"
| "buildPackageJsonUpdates (Suc fuel) M st targetPackage target =
     (case populatePackageJsonUpdatesAndGetPackagesToCheck (Suc fuel) M st targetPackage target of
        Inl e \<Rightarrow> Inl e
      | Inr (packagesToCheck, st') \<Rightarrow>
          buildChecked (\<lambda>s name update. buildPackageJsonUpdates fuel M s name update)
            M st' packagesToCheck)"

subsection \<open>createMigrateJson and migrate\<close>

definition withPackageAndName :: "MigrationsJsonEntry \<Rightarrow> string \<Rightarrow> string \<Rightarrow> Migration" where
  "withPackageAndName migration packageName migrationName =
     \<lparr>mig_version = mig_version migration,
      mig_description = mig_description migration,
      mig_cli = mig_cli migration,
      mig_implementation = mig_implementation migration,
      mig_factory = mig_factory migration,
      mig_requires = mig_requires migration,
      mig_package = packageName,
      mig_name = migrationName\<rparr>"

text \<open>The predicate of \<open>.filter\<close> on the entries of \<open>generators\<close>, with its short circuits.\<close>

definition migrationApplies ::
  "Migrator \<Rightarrow> MigratorState \<Rightarrow> string \<Rightarrow> string \<Rightarrow> string \<Rightarrow> string \<times> MigrationsJsonEntry
     \<Rightarrow> error + bool" where
  "migrationApplies M st packageName currentVersion version entry =
     (if \<not> truthy (mig_version (snd entry)) then Inr False
      else if \<not> Migrator_gt (the (mig_version (snd entry))) currentVersion then Inr False
      else if \<not> Migrator_lte (the (mig_version (snd entry))) version then Inr False
      else areMigrationRequirementsMet M st packageName (snd entry))"

text \<open>\<open>.filter\<close> with a predicate that can throw.\<close>

fun filter_throwing :: "('a \<Rightarrow> error + bool) \<Rightarrow> 'a list \<Rightarrow> error + 'a list" where
  "filter_throwing p [] = Inr []"
| "filter_throwing p (x # xs) =
     (case p x of
        Inl e \<Rightarrow> Inl e
      | Inr b \<Rightarrow>
          (case filter_throwing p xs of
             Inl e \<Rightarrow> Inl e
           | Inr ys \<Rightarrow> Inr (if b then x # ys else ys)))"

text \<open>The body of the \<open>.map\<close> callback of \<open>createMigrateJson\<close>, for one package of the plan.\<close>

definition migrationsOfPackage ::
  "Migrator \<Rightarrow> MigratorState \<Rightarrow> string \<Rightarrow> error + Migration list" where
  "migrationsOfPackage M st packageName =
     (case getPkgVersion M st packageName of
        None \<Rightarrow> Inr []
      | Some currentVersion \<Rightarrow>
          (case map_of (packageUpdates st) packageName of
             None \<Rightarrow> Inl (TypeError ''Cannot destructure property version of undefined'')
           | Some planned \<Rightarrow>
               (case fetch M packageName (pu_version planned) of
                  Inl e \<Rightarrow> Inl e
                | Inr config \<Rightarrow>
                    (case cfg_generators config of
                       None \<Rightarrow> Inr []
                     | Some generators \<Rightarrow>
                         (case filter_throwing
                                 (migrationApplies M st packageName currentVersion
                                    (pu_version planned))
                                 generators of
                            Inl e \<Rightarrow> Inl e
                          | Inr kept \<Rightarrow>
                              Inr (map (\<lambda>entry. withPackageAndName (snd entry) packageName
                                                  (fst entry))
                                     kept))))))"

fun collectAll :: "('a \<Rightarrow> error + 'b) \<Rightarrow> 'a list \<Rightarrow> error + 'b list" where
  "collectAll f [] = Inr []"
| "collectAll f (x # xs) =
     (case f x of
        Inl e \<Rightarrow> Inl e
      | Inr y \<Rightarrow> (case collectAll f xs of Inl e \<Rightarrow> Inl e | Inr ys \<Rightarrow> Inr (y # ys)))"

definition createMigrateJson :: "Migrator \<Rightarrow> MigratorState \<Rightarrow> error + Migration list" where
  "createMigrateJson M st =
     (case collectAll (migrationsOfPackage M st) (map fst (packageUpdates st)) of
        Inl e \<Rightarrow> Inl e
      | Inr migrations \<Rightarrow> Inr (concat migrations))"

text \<open>The state of a new \<open>Migrator\<close>: \<open>opts.from\<close> and two empty objects.\<close>

definition newMigratorState :: "(string \<rightharpoonup> string) \<Rightarrow> MigratorState" where
  "newMigratorState from_versions =
     \<lparr>installedPkgVersionOverrides = from_versions,
      packageUpdates = [],
      collectedVersions = Map.empty\<rparr>"

definition migrate ::
  "nat \<Rightarrow> Migrator \<Rightarrow> MigratorState \<Rightarrow> string \<Rightarrow> string
     \<Rightarrow> error + (PackageUpdate obj \<times> Migration list)" where
  "migrate fuel M st targetPackage targetVersion =
     (case buildPackageJsonUpdates fuel M st targetPackage
             \<lparr>pu_version = targetVersion,
              pu_ifPackageInstalled = None,
              pu_alwaysAddToPackageJson = None,
              pu_addToPackageJson = AddBool False\<rparr> of
        Inl e \<Rightarrow> Inl e
      | Inr st' \<Rightarrow>
          (case createMigrateJson M st' of
             Inl e \<Rightarrow> Inl e
           | Inr migrations \<Rightarrow> Inr (packageUpdates st', migrations)))"

section \<open>The command line target\<close>

definition normalizeVersionWithTagCheck :: "string \<Rightarrow> string" where
  "normalizeVersionWithTagCheck version =
     (if version = ''latest'' \<or> version = ''next'' then version else normalizeVersion version)"

text \<open>\<open>/^\d+(?:\.\d+)?(?:\.\d+)?$/\<close>: one to three runs of digits separated by dots.\<close>

definition partialVersion :: "string \<Rightarrow> bool" where
  "partialVersion args =
     (length (js_split CHR ''.'' args) \<le> 3 \<and> list_all all_digits (js_split CHR ''.'' args))"

text \<open>The parts before and after the last occurrence of a character that occurs.\<close>

definition cut_at_last :: "char \<Rightarrow> string \<Rightarrow> string \<times> string" where
  "cut_at_last c s =
     (rev (drop (Suc (length (takeWhile (\<lambda>x. x \<noteq> c) (rev s)))) (rev s)),
      rev (takeWhile (\<lambda>x. x \<noteq> c) (rev s)))"

definition provideCorrectPackage :: error where
  "provideCorrectPackage =
     Error ''Provide the correct package name and version. E.g., my-package@9.0.0.''"

definition parseTargetPackageAndVersion :: "string \<Rightarrow> error + (string \<times> string)" where
  "parseTargetPackageAndVersion args =
     (if args = [] then Inl provideCorrectPackage
      else if CHR ''@'' \<in> set args
      then
        (case cut_at_last CHR ''@'' args of
           (targetPackage, maybeVersion) \<Rightarrow>
             if targetPackage = [] then Inr (trim args, ''latest'')
             else if maybeVersion = [] then Inl provideCorrectPackage
             else Inr (targetPackage, normalizeVersionWithTagCheck maybeVersion))
      else if args = ''latest'' \<or> args = ''next'' \<or> semver_valid args \<or> partialVersion args
      then
        (if args = ''latest'' \<or> args = ''next''
         then Inr (''nx'', normalizeVersionWithTagCheck args)
         else (case semver_lt (normalizeVersionWithTagCheck args) ''14.0.0-beta.0'' of
                 Inl e \<Rightarrow> Inl e
               | Inr True \<Rightarrow> Inr (''@nrwl/workspace'', normalizeVersionWithTagCheck args)
               | Inr False \<Rightarrow> Inr (''nx'', normalizeVersionWithTagCheck args)))
      else Inr (args, ''latest''))"

section \<open>The installed version resolver\<close>

text \<open>
  \<open>createInstalledPackageVersionsResolver(root)\<close>. \<open>readModulePackageJson\<close> is outside the
  repository's files: \<open>disk\<close> gives the \<open>version\<close> field of the installed package, \<open>None\<close>
  when reading it throws. The cache only saves the read.
\<close>

definition installedOnDisk ::
  "(string \<rightharpoonup> string) \<Rightarrow> string \<Rightarrow> (string \<rightharpoonup> string) option \<Rightarrow> string option" where
  "installedOnDisk disk packageName overrides =
     (if truthy (case overrides of None \<Rightarrow> None | Some ov \<Rightarrow> ov packageName)
      then the overrides packageName
      else disk packageName)"

definition createInstalledPackageVersionsResolver ::
  "(string \<rightharpoonup> string) \<Rightarrow> string \<Rightarrow> (string \<rightharpoonup> string) option \<Rightarrow> string option" where
  "createInstalledPackageVersionsResolver disk packageName overrides =
     (case installedOnDisk disk packageName overrides of
        Some v \<Rightarrow> Some v
      | None \<Rightarrow>
          if packageName = ''nx'' then installedOnDisk disk ''@nrwl/workspace'' overrides
          else None)"

section \<open>The migrations file\<close>

definition readNxVersion :: "PackageJson \<Rightarrow> string option" where
  "readNxVersion pj =
     (let dev = (case devDependencies pj of None \<Rightarrow> Map.empty | Some d \<Rightarrow> d);
          deps = (case dependencies pj of None \<Rightarrow> Map.empty | Some d \<Rightarrow> d)
      in case dev ''nx'' of
           Some v \<Rightarrow> Some v
         | None \<Rightarrow>
             (case deps ''nx'' of
                Some v \<Rightarrow> Some v
              | None \<Rightarrow>
                  (case dev ''@nrwl/workspace'' of
                     Some v \<Rightarrow> Some v
                   | None \<Rightarrow> deps ''@nrwl/workspace'')))"

definition splitConfigurationMigration :: Migration where
  "splitConfigurationMigration =
     \<lparr>mig_version = Some ''15.7.0-beta.0'',
      mig_description = Some (''Split global configuration files into individual project.json files. ''
        @ ''This migration has been added automatically to the beginning of your migration set ''
        @ ''to retroactively make them work with the new version of Nx.''),
      mig_cli = Some ''nx'',
      mig_implementation =
        Some ''./src/migrations/update-15-7-0/split-configuration-into-project-json-files'',
      mig_factory = None,
      mig_requires = None,
      mig_package = ''@nrwl/workspace'',
      mig_name = ''15-7-0-split-configuration-into-project-json-files''\<rparr>"

text \<open>
  \<open>from\<close> is what \<open>readNxVersion\<close> found in \<open>package.json\<close>, \<open>undefined\<close> when neither package
  is declared. \<open>gte\<close> and \<open>lt\<close> are semver's own: they throw on a string that is not a
  version, and \<open>lt\<close> is reached only when \<open>gte\<close> holds.
\<close>

definition addSplitConfigurationMigrationIfAvailable ::
  "string option \<Rightarrow> PackageUpdate obj \<Rightarrow> error + Migration list" where
  "addSplitConfigurationMigrationIfAvailable from_version packageUpdatesOfPlan =
     (case map_of packageUpdatesOfPlan ''@nrwl/workspace'' of
        None \<Rightarrow> Inr []
      | Some planned \<Rightarrow>
          (case semver_gte (pu_version planned) ''15.7.0-beta.0'' of
             Inl e \<Rightarrow> Inl e
           | Inr False \<Rightarrow> Inr []
           | Inr True \<Rightarrow>
               (case from_version of
                  None \<Rightarrow> Inl (TypeError ''Invalid Version: undefined'')
                | Some v \<Rightarrow>
                    (case semver_lt v ''15.7.0-beta.0'' of
                       Inl e \<Rightarrow> Inl e
                     | Inr True \<Rightarrow> Inr [splitConfigurationMigration]
                     | Inr False \<Rightarrow> Inr []))))"

text \<open>
  What \<open>generateMigrationsJsonAndUpdatePackageJson\<close> passes to \<open>createMigrationsFile\<close>
  after the planner has returned: \<open>None\<close> when it does not create the file.
\<close>

definition migrationsFileContents ::
  "string option \<Rightarrow> PackageUpdate obj \<Rightarrow> Migration list \<Rightarrow> error + Migration list option" where
  "migrationsFileContents from_version packageUpdatesOfPlan migrations =
     (if length migrations > 0
      then (case addSplitConfigurationMigrationIfAvailable from_version packageUpdatesOfPlan of
              Inl e \<Rightarrow> Inl e
            | Inr split \<Rightarrow> Inr (Some (split @ migrations)))
      else Inr None)"

section \<open>Keys of the version order\<close>

text \<open>
  A proof device: \<open>compare\<close> orders versions as the lexicographic order orders these
  keys, so the comparators inherit its laws.
\<close>

definition id_key :: "pre_id \<Rightarrow> bool \<times> int \<times> int list" where
  "id_key i = (case i of Num n \<Rightarrow> (False, n, []) | Str s \<Rightarrow> (True, 0, map code_unit s))"

definition semver_key :: "SemVer \<Rightarrow> int \<times> int \<times> int \<times> bool \<times> (bool \<times> int \<times> int list) list" where
  "semver_key x = (major x, minor x, patch x, prerelease x = [], map id_key (prerelease x))"

definition version_key :: "string \<Rightarrow> int \<times> int \<times> int \<times> bool \<times> (bool \<times> int \<times> int list) list" where
  "version_key v = semver_key (the (parseSemVer (normalizeVersion v)))"

text \<open>
  The order on plans that the planner keeps: every package of the first plan is in the
  second with a version that is not smaller.
\<close>

definition plan_le :: "PackageUpdate obj \<Rightarrow> PackageUpdate obj \<Rightarrow> bool" where
  "plan_le P P' =
     (\<forall>p u. map_of P p = Some u
        \<longrightarrow> (\<exists>u'. map_of P' p = Some u' \<and> Migrator_lte (pu_version u) (pu_version u')))"

section \<open>A workspace for the examples\<close>

text \<open>
  An instance of \<open>satisfies\<close> for the examples: it reads a range that is one comparator
  \<open>>=V\<close>, as semver does with \<open>includePrerelease\<close>, and accepts no other range.
\<close>

definition satisfies_at_least :: "string \<Rightarrow> string \<Rightarrow> bool" where
  "satisfies_at_least version versionRange =
     (case versionRange of
        a # b # v \<Rightarrow> a = CHR ''>'' \<and> b = CHR ''='' \<and> semver_gte version v = Inr True
      | _ \<Rightarrow> False)"

text \<open>
  Installed: \<open>pkg\<close> 1.0.0, \<open>peer\<close> 2.0.0 and \<open>child\<close> 1.0.0, all three dependencies of
  the workspace. The document of \<open>pkg@2.0.0\<close> has the group member \<open>child\<close> at \<open>*\<close>, an
  update that always adds \<open>newdep\<close> 1.1.0, which is not installed, and moves \<open>peer\<close> to
  3.0.0, and three migrations: \<open>m1\<close> for 1.5.0, \<open>m2\<close> for 2.0.0, which
  requires \<open>peer >= 3.0.0\<close>, and \<open>m3\<close> for 2.1.0.
\<close>

definition example_disk :: "string \<rightharpoonup> string" where
  "example_disk = [''pkg'' \<mapsto> ''1.0.0'', ''peer'' \<mapsto> ''2.0.0'', ''child'' \<mapsto> ''1.0.0'']"

definition example_packageJson :: PackageJson where
  "example_packageJson =
     \<lparr>dependencies = Some [''pkg'' \<mapsto> ''^1.0.0'', ''peer'' \<mapsto> ''^2.0.0'', ''child'' \<mapsto> ''^1.0.0''],
      devDependencies = None\<rparr>"

definition plain_update :: "string \<Rightarrow> PackageUpdate" where
  "plain_update v =
     \<lparr>pu_version = v, pu_ifPackageInstalled = None, pu_alwaysAddToPackageJson = None,
      pu_addToPackageJson = AddUndefined\<rparr>"

definition plain_migration :: "string \<Rightarrow> string obj option \<Rightarrow> MigrationsJsonEntry" where
  "plain_migration v requirements =
     \<lparr>mig_version = Some v, mig_description = None, mig_cli = Some ''nx'',
      mig_implementation = None, mig_factory = None, mig_requires = requirements\<rparr>"

definition example_document :: ResolvedMigrationConfiguration where
  "example_document =
     \<lparr>cfg_version = ''2.0.0'',
      cfg_packageGroup = Some [group_entry ''child'' ''*''],
      cfg_packageJsonUpdates =
        Some [(''a'', \<lparr>pju_version = ''2.0.0'',
                       pju_packages =
                         Some [(''newdep'', (plain_update ''1.1.0'')
                                  \<lparr>pu_alwaysAddToPackageJson := Some True\<rparr>),
                               (''peer'', plain_update ''3.0.0'')],
                       pju_x_prompt = None,
                       pju_requires = None\<rparr>)],
      cfg_generators =
        Some [(''m1'', plain_migration ''1.5.0'' None),
              (''m2'', plain_migration ''2.0.0'' (Some [(''peer'', ''>=3.0.0'')])),
              (''m3'', plain_migration ''2.1.0'' None)]\<rparr>"

definition bare_document :: "string \<Rightarrow> ResolvedMigrationConfiguration" where
  "bare_document v =
     \<lparr>cfg_version = v, cfg_packageGroup = None, cfg_packageJsonUpdates = None,
      cfg_generators = None\<rparr>"

definition example_fetch :: "string \<Rightarrow> string \<Rightarrow> error + ResolvedMigrationConfiguration" where
  "example_fetch packageName version =
     (if packageName = ''pkg'' \<and> version = ''2.0.0'' then Inr example_document
      else if packageName = ''child'' \<and> version = ''2.0.0'' then Inr (bare_document ''2.0.0'')
      else if packageName = ''peer'' \<and> version = ''3.0.0'' then Inr (bare_document ''3.0.0'')
      else Inl (Error ''No matching version''))"

definition example_Migrator :: Migrator where
  "example_Migrator =
     \<lparr>packageJson = example_packageJson,
      getInstalledPackageVersion = createInstalledPackageVersionsResolver example_disk,
      fetch = example_fetch,
      to_versions = Map.empty,
      interactive = None,
      excludeAppliedMigrations = None,
      satisfies = satisfies_at_least,
      clean = (\<lambda>v. if semver_valid v then Some v else None),
      coerce = (\<lambda>v. None),
      confirm = (\<lambda>question. True)\<rparr>"

definition example_target :: PackageUpdate where
  "example_target =
     \<lparr>pu_version = ''2.0.0'', pu_ifPackageInstalled = None, pu_alwaysAddToPackageJson = None,
      pu_addToPackageJson = AddBool False\<rparr>"

text \<open>A plan is shown by its packages and their versions.\<close>

definition plan_versions :: "PackageUpdate obj \<Rightarrow> (string \<times> string) list" where
  "plan_versions plan = map (\<lambda>entry. (fst entry, pu_version (snd entry))) plan"

text \<open>The state in which the planner leaves the example after \<open>pkg@2.0.0\<close>.\<close>

definition example_planned :: MigratorState where
  "example_planned =
     projr (buildPackageJsonUpdates 2 example_Migrator (newMigratorState Map.empty)
              ''pkg'' example_target)"

text \<open>
  Five candidate updates of \<open>pkg\<close>, installed at 1.0.0 and going to 2.0.0: one for the
  installed version, one for the target version, one for a later version, one without
  \<open>packages\<close> and one whose only package is not a dependency of the workspace.
\<close>

definition candidate_update :: "string \<Rightarrow> PackageUpdate obj option \<Rightarrow> PackageJsonUpdate" where
  "candidate_update v packages =
     \<lparr>pju_version = v, pju_packages = packages, pju_x_prompt = None, pju_requires = None\<rparr>"

definition example_updates :: "PackageJsonUpdate obj" where
  "example_updates =
     [(''passed'', candidate_update ''1.0.0'' (Some [(''peer'', plain_update ''3.0.0'')])),
      (''target'', candidate_update ''2.0.0''
         (Some [(''peer'', plain_update ''3.0.0''), (''stranger'', plain_update ''1.0.0'')])),
      (''future'', candidate_update ''2.1.0'' (Some [(''peer'', plain_update ''4.0.0'')])),
      (''empty'', candidate_update ''1.5.0'' None),
      (''strangers'', candidate_update ''1.5.0'' (Some [(''stranger'', plain_update ''1.0.0'')]))]"


text \<open>A workspace that declares \<open>nx\<close> and \<open>@nrwl/workspace\<close> at 15.6.0.\<close>

definition nx_packageJson :: PackageJson where
  "nx_packageJson =
     \<lparr>dependencies = None,
      devDependencies = Some [''nx'' \<mapsto> ''15.6.0'', ''@nrwl/workspace'' \<mapsto> ''15.6.0'']\<rparr>"

section \<open>Facts about versions\<close>

lemma map_code_unit_inj: "map code_unit a = map code_unit b \<longleftrightarrow> a = b"
proof -
  have "inj code_unit" by (simp add: inj_on_def code_unit_def)
  then show ?thesis by (simp add: inj_map_eq_map)
qed

lemma id_key_inj: "id_key a = id_key b \<longleftrightarrow> a = b"
  by (cases a; cases b) (auto simp: id_key_def map_code_unit_inj)

lemma compareIdentifiers_key:
  "compareIdentifiers a b = (if id_key a < id_key b then -1 else if id_key a = id_key b then 0 else 1)"
  by (cases a; cases b) (auto simp: id_key_def string_less_def map_code_unit_inj)

lemma comparePreLoop_key:
  "comparePreLoop xs ys =
     (if map id_key xs < map id_key ys then -1 else if map id_key xs = map id_key ys then 0 else 1)"
proof (induction xs ys rule: comparePreLoop.induct)
  case (4 a as b bs)
  show ?case
  proof (cases "a = b")
    case True
    with 4 show ?thesis by simp
  next
    case False
    then have ne: "id_key a \<noteq> id_key b" by (simp add: id_key_inj)
    with False show ?thesis by (auto simp: compareIdentifiers_key)
  qed
qed simp_all

lemma compareNumbers_sign: "compareNumbers a b = (if a < b then -1 else if a = b then 0 else 1)"
  by (simp add: compareNumbers_def)

lemma compare_key:
  "compare x y = (if semver_key x < semver_key y then -1 else if semver_key x = semver_key y then 0 else 1)"
  by (auto simp: compare_def compareMain_def comparePre_def comparePreLoop_key compareNumbers_sign semver_key_def)


lemma parse_zero: "parseSemVer ''0.0.0'' \<noteq> None"
  by code_simp

lemma semver_gt_parses: "semver_gt a b = Inr r \<Longrightarrow> parseSemVer a \<noteq> None \<and> parseSemVer b \<noteq> None"
  by (auto simp: semver_gt_def semver_compare_def split: option.splits sum.splits)

lemma firstAboveZero_valid: "parseSemVer (firstAboveZero xs) \<noteq> None"
proof (induction xs)
  case Nil
  show ?case using parse_zero by simp
next
  case (Cons x xs)
  show ?case
  proof (cases "semver_gt x ''0.0.0''")
    case (Inl e)
    with Cons show ?thesis by simp
  next
    case (Inr b)
    with Cons semver_gt_parses[OF Inr] show ?thesis by (cases b) auto
  qed
qed

lemma normalizeVersion_valid: "parseSemVer (normalizeVersion v) \<noteq> None"
  by (simp add: normalizeVersion_def firstAboveZero_valid)

lemma semver_compare_normalized:
  "semver_compare (normalizeVersion a) (normalizeVersion b) =
     Inr (compare (the (parseSemVer (normalizeVersion a))) (the (parseSemVer (normalizeVersion b))))"
  using normalizeVersion_valid[of a] normalizeVersion_valid[of b]
  by (auto simp: semver_compare_def split: option.splits)

lemma Migrator_compare_no_throw:
  "\<exists>c. semver_compare (normalizeVersion a) (normalizeVersion b) = Inr c"
  by (simp add: semver_compare_normalized)

lemma Migrator_gt_key: "Migrator_gt a b \<longleftrightarrow> version_key b < version_key a"
  by (auto simp: Migrator_gt_def semver_gt_def semver_compare_normalized compare_key version_key_def)

lemma Migrator_lte_key: "Migrator_lte a b \<longleftrightarrow> version_key a \<le> version_key b"
  by (auto simp: Migrator_lte_def semver_lte_def semver_compare_normalized compare_key version_key_def)

lemma Migrator_lte_not_gt: "Migrator_lte a b \<longleftrightarrow> \<not> Migrator_gt a b"
  by (auto simp: Migrator_lte_key Migrator_gt_key)

lemma Migrator_lte_refl: "Migrator_lte a a"
  by (simp add: Migrator_lte_key)

lemma Migrator_lte_trans: "Migrator_lte a b \<Longrightarrow> Migrator_lte b c \<Longrightarrow> Migrator_lte a c"
  by (simp add: Migrator_lte_key)

lemma Migrator_gt_imp_lte: "Migrator_gt a b \<Longrightarrow> Migrator_lte b a"
  by (simp add: Migrator_lte_key Migrator_gt_key)

lemma firstAboveZero_find:
  "firstAboveZero xs =
     (case find (\<lambda>variation. semver_gt variation ''0.0.0'' = Inr True) xs of
        Some variation \<Rightarrow> variation | None \<Rightarrow> ''0.0.0'')"
proof (induction xs)
  case Nil
  show ?case by simp
next
  case (Cons x xs)
  show ?case
  proof (cases "semver_gt x ''0.0.0''")
    case (Inl e)
    with Cons show ?thesis by simp
  next
    case (Inr b)
    with Cons show ?thesis by (cases b) auto
  qed
qed

lemma parse_threshold_14: "parseSemVer ''14.0.0-beta.0'' \<noteq> None"
  by code_simp

lemma semver_lt_normalized_total:
  "parseSemVer b \<noteq> None \<Longrightarrow> \<exists>r. semver_lt (normalizeVersion a) b = Inr r"
  using normalizeVersion_valid[of a]
  by (auto simp: semver_lt_def semver_compare_def split: option.splits)

lemma parseSemVer_empty: "parseSemVer [] = None"
  by code_simp

lemma partialVersion_empty: "\<not> partialVersion []"
  by code_simp

section \<open>The plan never goes back\<close>

lemma plan_le_refl: "plan_le P P"
  by (auto simp: plan_le_def Migrator_lte_refl)

lemma plan_le_trans: "plan_le P Q \<Longrightarrow> plan_le Q R \<Longrightarrow> plan_le P R"
  unfolding plan_le_def by (meson Migrator_lte_trans)

lemma addPackageUpdate_plan_le:
  "plan_le (packageUpdates st) (packageUpdates (addPackageUpdate st name u))"
  by (auto simp: plan_le_def addPackageUpdate_def update_conv' Migrator_lte_refl Migrator_gt_imp_lte
           split: option.splits)

lemma packageGroup_keeps_plan:
  "getPackageJsonUpdatesFromPackageGroup st packageName targetVersion config = Inr (order, config', st')
     \<Longrightarrow> packageUpdates st' = packageUpdates st \<and> collectedVersions st' = collectedVersions st"
  by (auto simp: getPackageJsonUpdatesFromPackageGroup_def split: sum.splits if_splits prod.splits)

lemma migrationConfig_keeps_plan:
  "getPackageJsonUpdatesFromMigrationConfig M st packageName targetVersion config = Inr (updates, order, st')
     \<Longrightarrow> packageUpdates st' = packageUpdates st \<and> collectedVersions st' = collectedVersions st"
  by (auto simp: getPackageJsonUpdatesFromMigrationConfig_def
           split: sum.splits if_splits prod.splits option.splits dest: packageGroup_keeps_plan)

lemma populateAll_plan_le:
  assumes "\<And>s name update r s'. recurse s name update = Inr (r, s')
             \<Longrightarrow> plan_le (packageUpdates s) (packageUpdates s')"
    and "populateAll recurse st entries = Inr (results, st')"
  shows "plan_le (packageUpdates st) (packageUpdates st')"
  using assms(2)
proof (induction entries arbitrary: st results)
  case Nil
  then show ?case by (simp add: plan_le_refl)
next
  case (Cons entry rest)
  then show ?case
    by (auto split: sum.splits prod.splits intro: plan_le_trans assms(1))
qed

lemma populateFromConfig_plan_le:
  assumes "\<And>s name update r s'. recurse s name update = Inr (r, s')
             \<Longrightarrow> plan_le (packageUpdates s) (packageUpdates s')"
    and "populateFromConfig recurse M st targetPackage target config = Inr (r, st')"
  shows "plan_le (packageUpdates st) (packageUpdates st')"
proof -
  let ?st1 = "addPackageUpdate st targetPackage
                \<lparr>pu_version = cfg_version config,
                 pu_ifPackageInstalled = None,
                 pu_alwaysAddToPackageJson = None,
                 pu_addToPackageJson = or_false (pu_addToPackageJson target)\<rparr>"
  obtain updates order st2 where
    g: "getPackageJsonUpdatesFromMigrationConfig M ?st1 targetPackage (cfg_version config) config
          = Inr (updates, order, st2)"
    using assms(2) by (auto simp: populateFromConfig_def split: sum.splits)
  then have same: "packageUpdates st2 = packageUpdates ?st1"
    using migrationConfig_keeps_plan by blast
  have le1: "plan_le (packageUpdates st) (packageUpdates st2)"
    unfolding same by (rule addPackageUpdate_plan_le)
  have "plan_le (packageUpdates st2) (packageUpdates st')"
    using assms(2) g
    by (auto simp: populateFromConfig_def plan_le_refl split: if_splits sum.splits prod.splits
             dest: populateAll_plan_le[OF assms(1), rotated])
  with le1 show ?thesis by (rule plan_le_trans)
qed

lemma populate_plan_le:
  "populatePackageJsonUpdatesAndGetPackagesToCheck fuel M st targetPackage target = Inr (r, st')
     \<Longrightarrow> plan_le (packageUpdates st) (packageUpdates st')"
proof (induction fuel arbitrary: st targetPackage target r st')
  case 0
  then show ?case by simp
next
  case (Suc fuel)
  show ?case
  proof (cases "truthy (getPkgVersion M st targetPackage)")
    case False
    with Suc.prems show ?thesis by (auto simp: addPackageUpdate_plan_le)
  next
    case True
    let ?st1 = "\<lambda>config. st\<lparr>collectedVersions :=
                   (collectedVersions st)(targetPackage \<mapsto> cfg_version config)\<rparr>"
    from True Suc.prems show ?thesis
      apply (simp split: sum.splits bool.splits)
       apply (auto simp: plan_le_refl)[1]
      apply (drule populateFromConfig_plan_le[rotated])
       apply (erule Suc.IH)
      apply simp
      done
  qed
qed

lemma buildAll_plan_le:
  assumes "\<And>s name update s'. recurse s name update = Inr s'
             \<Longrightarrow> plan_le (packageUpdates s) (packageUpdates s')"
    and "buildAll recurse st entries = Inr st'"
  shows "plan_le (packageUpdates st) (packageUpdates st')"
  using assms(2)
proof (induction entries arbitrary: st)
  case Nil
  then show ?case by (simp add: plan_le_refl)
next
  case (Cons entry rest)
  then show ?case
    by (auto split: sum.splits intro: plan_le_trans assms(1))
qed

lemma buildChecked_plan_le:
  assumes "\<And>s name update s'. recurse s name update = Inr s'
             \<Longrightarrow> plan_le (packageUpdates s) (packageUpdates s')"
    and "buildChecked recurse M st pkgs = Inr st'"
  shows "plan_le (packageUpdates st) (packageUpdates st')"
  using assms(2)
proof (induction pkgs arbitrary: st)
  case Nil
  then show ?case by (simp add: plan_le_refl)
next
  case (Cons packageToCheck rest)
  then show ?case
    by (auto split: sum.splits intro: plan_le_trans buildAll_plan_le[OF assms(1)])
qed

lemma buildPackageJsonUpdates_plan_le:
  "buildPackageJsonUpdates fuel M st targetPackage target = Inr st'
     \<Longrightarrow> plan_le (packageUpdates st) (packageUpdates st')"
proof (induction fuel arbitrary: st targetPackage target st')
  case 0
  then show ?case by simp
next
  case (Suc fuel)
  from Suc.prems obtain pkgs st1 where
    p: "populatePackageJsonUpdatesAndGetPackagesToCheck (Suc fuel) M st targetPackage target
          = Inr (pkgs, st1)"
    and b: "buildChecked (\<lambda>s name update. buildPackageJsonUpdates fuel M s name update) M st1 pkgs
          = Inr st'"
    by (auto simp del: populatePackageJsonUpdatesAndGetPackagesToCheck.simps split: sum.splits)
  have "plan_le (packageUpdates st) (packageUpdates st1)"
    using p by (rule populate_plan_le)
  moreover have "plan_le (packageUpdates st1) (packageUpdates st')"
    using b by (rule buildChecked_plan_le[rotated]) (rule Suc.IH)
  ultimately show ?case by (rule plan_le_trans)
qed

lemma addPackageUpdate_replaces_only_greater:
  assumes "map_of (packageUpdates st) p = Some u"
  shows "\<exists>u'. map_of (packageUpdates (addPackageUpdate st name new)) p = Some u'
            \<and> (u' = u \<or> (p = name \<and> u' = new \<and> Migrator_gt (pu_version new) (pu_version u)))"
  using assms by (auto simp: addPackageUpdate_def update_conv' split: option.splits)

section \<open>Facts about the second phase\<close>

lemma collectAll_member:
  assumes "collectAll f xs = Inr ys" and "m \<in> set (concat ys)"
  shows "\<exists>x y. x \<in> set xs \<and> f x = Inr y \<and> m \<in> set y"
  using assms
proof (induction xs arbitrary: ys)
  case Nil
  then show ?case by simp
next
  case (Cons x xs)
  then show ?case by (fastforce split: sum.splits)
qed

lemma filter_throwing_member:
  assumes "filter_throwing p xs = Inr ys" and "x \<in> set ys"
  shows "x \<in> set xs \<and> p x = Inr True"
  using assms
proof (induction xs arbitrary: ys)
  case Nil
  then show ?case by simp
next
  case (Cons a xs)
  then show ?case by (fastforce split: sum.splits if_splits)
qed

lemma areMigrationRequirementsMet_requires:
  "areMigrationRequirementsMet M st packageName migration = Inr True
     \<Longrightarrow> areRequirementsMet M st (mig_requires migration) None"
  by (auto simp: areMigrationRequirementsMet_def split: if_splits sum.splits bool.splits)

lemma Migrator_gt_semver:
  "Migrator_gt a b \<longleftrightarrow> semver_gt (normalizeVersion a) (normalizeVersion b) = Inr True"
  by (auto simp: Migrator_gt_def semver_gt_def semver_compare_normalized)

lemma Migrator_lte_semver:
  "Migrator_lte a b \<longleftrightarrow> semver_lte (normalizeVersion a) (normalizeVersion b) = Inr True"
  by (auto simp: Migrator_lte_def semver_lte_def semver_compare_normalized)

lemma migrationApplies_window:
  assumes "migrationApplies M st packageName currentVersion version entry = Inr True"
  shows "\<exists>v. mig_version (snd entry) = Some v \<and> Migrator_gt v currentVersion
           \<and> Migrator_lte v version
           \<and> areRequirementsMet M st (mig_requires (snd entry)) None"
  using assms
  by (auto simp: migrationApplies_def truthy_def
           split: if_splits option.splits dest: areMigrationRequirementsMet_requires)

lemma migrationsOfPackage_window:
  assumes "migrationsOfPackage M st packageName = Inr ms" and "m \<in> set ms"
  shows "mig_package m = packageName
         \<and> (\<exists>planned currentVersion v.
               map_of (packageUpdates st) packageName = Some planned
             \<and> getPkgVersion M st packageName = Some currentVersion
             \<and> mig_version m = Some v
             \<and> Migrator_gt v currentVersion
             \<and> Migrator_lte v (pu_version planned)
             \<and> areRequirementsMet M st (mig_requires m) None)"
proof -
  from assms obtain currentVersion planned config generators kept where
    cur: "getPkgVersion M st packageName = Some currentVersion"
    and pl: "map_of (packageUpdates st) packageName = Some planned"
    and ft: "filter_throwing (migrationApplies M st packageName currentVersion (pu_version planned))
               generators = Inr kept"
    and ms: "ms = map (\<lambda>entry. withPackageAndName (snd entry) packageName (fst entry)) kept"
    by (auto simp: migrationsOfPackage_def split: option.splits sum.splits)
  from assms(2) ms obtain entry where
    e: "entry \<in> set kept" and m: "m = withPackageAndName (snd entry) packageName (fst entry)"
    by auto
  from filter_throwing_member[OF ft e]
  have "migrationApplies M st packageName currentVersion (pu_version planned) entry = Inr True"
    by simp
  from migrationApplies_window[OF this] cur pl m show ?thesis
    by (auto simp: withPackageAndName_def)
qed


lemma areMigrationRequirementsMet_not_installed:
  assumes "map_of (packageUpdates st) packageName = Some planned"
    and "mig_version migration = Some v" and "v \<noteq> []"
    and "Migrator_lte v (pu_version planned)"
    and "\<not> truthy (getInstalledPackageVersion M packageName None)"
    and "excludeAppliedMigrations M = Some True"
  shows "areMigrationRequirementsMet M st packageName migration =
           Inr (areRequirementsMet M st (mig_requires migration) None)"
  using assms
  by (auto simp: areMigrationRequirementsMet_def
                 isMigrationForHigherVersionThanWhatIsInstalled_def Let_def truthy_def
           split: sum.splits bool.splits)


section \<open>Facts about one visit of a package\<close>

lemma getPkgVersion_to_versions [simp]:
  "getPkgVersion (M\<lparr>to_versions := t\<rparr>) st p = getPkgVersion M st p"
  by (simp add: getPkgVersion_def)

lemma addPackageUpdate_entry:
  "\<exists>e. map_of (packageUpdates (addPackageUpdate st name u)) name = Some e
        \<and> Migrator_lte (pu_version u) (pu_version e)"
  by (auto simp: addPackageUpdate_def update_conv' Migrator_lte_key Migrator_gt_key
           split: option.splits)

lemma populateFromConfig_entry:
  assumes "populateFromConfig
             (\<lambda>s name update. populatePackageJsonUpdatesAndGetPackagesToCheck fuel M s name update)
             M st targetPackage target config = Inr (r, st')"
  shows "\<exists>e. map_of (packageUpdates st') targetPackage = Some e
            \<and> Migrator_lte (cfg_version config) (pu_version e)"
proof -
  let ?new = "\<lparr>pu_version = cfg_version config,
                 pu_ifPackageInstalled = None,
                 pu_alwaysAddToPackageJson = None,
                 pu_addToPackageJson = or_false (pu_addToPackageJson target)\<rparr>"
  let ?st1 = "addPackageUpdate st targetPackage ?new"
  let ?recurse = "\<lambda>s name update. populatePackageJsonUpdatesAndGetPackagesToCheck fuel M s name update"
  have mono: "\<And>s name update r s'. ?recurse s name update = Inr (r, s')
                \<Longrightarrow> plan_le (packageUpdates s) (packageUpdates s')"
    by (rule populate_plan_le)
  obtain updates order st2 where
    g: "getPackageJsonUpdatesFromMigrationConfig M ?st1 targetPackage (cfg_version config) config
          = Inr (updates, order, st2)"
    using assms by (auto simp: populateFromConfig_def split: sum.splits)
  then have same: "packageUpdates st2 = packageUpdates ?st1"
    using migrationConfig_keeps_plan by blast
  have le: "plan_le (packageUpdates st2) (packageUpdates st')"
    using assms g
    by (auto simp: populateFromConfig_def plan_le_refl split: if_splits sum.splits prod.splits
             dest: populateAll_plan_le[OF mono, rotated])
  from addPackageUpdate_entry[of st targetPackage ?new] obtain e where
    e: "map_of (packageUpdates ?st1) targetPackage = Some e" "Migrator_lte (cfg_version config) (pu_version e)"
    by auto
  with le same obtain e' where
    "map_of (packageUpdates st') targetPackage = Some e'" "Migrator_lte (pu_version e) (pu_version e')"
    by (auto simp: plan_le_def)
  with e show ?thesis by (blast intro: Migrator_lte_trans)
qed

section \<open>Facts about the filter of updates\<close>

lemma fold_update_not_empty:
  "foldl (\<lambda>acc entry. AList.update (f entry) (g entry) acc) acc xs = [] \<longleftrightarrow> acc = [] \<and> xs = []"
proof (induction xs arbitrary: acc)
  case Nil
  show ?case by simp
next
  case (Cons x xs)
  have "AList.update (f x) (g x) acc \<noteq> []" by (cases acc) auto
  with Cons show ?case by simp
qed

lemma filterPackages_empty:
  "filterPackages M st packages = [] \<longleftrightarrow> \<not> list_ex (keepPackageUpdate M st) packages"
  by (auto simp: filterPackages_def fold_update_not_empty filter_empty_conv list_ex_iff)

lemma filterPackageJsonUpdates_loop_filter:
  assumes "getPkgVersion M st packageName = Some installed"
  shows "filterPackageJsonUpdates_loop M st packageName targetVersion updates =
     Inr (map (\<lambda>u. u\<lparr>pju_packages := Some (filterPackages M st (the (pju_packages u)))\<rparr>)
           (filter (\<lambda>u. pju_packages u \<noteq> None
                        \<and> \<not> Migrator_lte (pju_version u) installed
                        \<and> \<not> Migrator_gt (pju_version u) targetVersion
                        \<and> list_ex (keepPackageUpdate M st) (the (pju_packages u)))
                   updates))"
proof (induction updates)
  case Nil
  show ?case by simp
next
  case (Cons u rest)
  show ?case
  proof (cases "pju_packages u")
    case None
    with Cons show ?thesis by simp
  next
    case (Some packages)
    with Cons assms show ?thesis by (simp add: filterPackages_empty)
  qed
qed

section \<open>Facts about the package group loop\<close>

lemma find_snoc:
  "find P (xs @ [x]) = (case find P xs of Some y \<Rightarrow> Some y | None \<Rightarrow> if P x then Some x else None)"
  by (induction xs) auto

lemma packageGroup_loop_lookup:
  "map_of (fst (packageGroup_loop packageName targetVersion packageGroup (packages, overrides))) child =
     (case find (\<lambda>e. pg_package e = child) (rev packageGroup) of
        None \<Rightarrow> map_of packages child
      | Some e \<Rightarrow> Some (groupPackageUpdate targetVersion e))"
proof (induction packageGroup arbitrary: packages overrides)
  case Nil
  show ?case by simp
next
  case (Cons packageConfig rest)
  show ?case
    by (simp add: Cons.IH find_snoc update_conv' split: option.splits)
qed

section \<open>The example, planned\<close>

lemma example_migrate:
  "migrate 2 example_Migrator (newMigratorState Map.empty) ''pkg'' ''2.0.0'' =
     Inr ([(''pkg'', (plain_update ''2.0.0'')\<lparr>pu_addToPackageJson := AddBool False\<rparr>),
           (''newdep'', (plain_update ''1.1.0'')\<lparr>pu_addToPackageJson := AddSection ''dependencies''\<rparr>),
           (''peer'', (plain_update ''3.0.0'')\<lparr>pu_addToPackageJson := AddBool False\<rparr>),
           (''child'', (plain_update ''2.0.0'')\<lparr>pu_addToPackageJson := AddBool False\<rparr>)],
          [withPackageAndName (plain_migration ''1.5.0'' None) ''pkg'' ''m1'',
           withPackageAndName (plain_migration ''2.0.0'' (Some [(''peer'', ''>=3.0.0'')]))
             ''pkg'' ''m2''])"
  by code_simp

lemma example_migrate_out_of_fuel:
  "migrate 1 example_Migrator (newMigratorState Map.empty) ''pkg'' ''2.0.0'' = Inl OutOfFuel"
  by code_simp

section \<open>Facts about normalizeVersion\<close>

text \<open>
  \<open>split\<close> in terms of the text before and after the first separator, and the four
  variations of \<open>normalizeVersion\<close> written with them.
\<close>

lemma js_split_not_empty: "js_split c s \<noteq> []"
  by (induction s) (auto split: list.splits)

lemma js_split_first:
  "js_split c s =
     takeWhile (\<lambda>x. x \<noteq> c) s
       # (if c \<in> set s then js_split c (drop 1 (dropWhile (\<lambda>x. x \<noteq> c) s)) else [])"
proof (induction s)
  case Nil
  show ?case by simp
next
  case (Cons x xs)
  show ?case
  proof (cases "x = c")
    case True
    then show ?thesis by simp
  next
    case False
    then show ?thesis by (subst js_split.simps, subst Cons.IH) auto
  qed
qed

lemma at_index_split_0:
  "at_index (js_split c s) 0 = Some (takeWhile (\<lambda>x. x \<noteq> c) s)"
  by (subst js_split_first) simp

lemma at_index_split_Suc:
  "at_index (js_split c s) (Suc i) =
     (if c \<in> set s then at_index (js_split c (drop 1 (dropWhile (\<lambda>x. x \<noteq> c) s))) i else None)"
  by (subst js_split_first) simp

lemma after_absent:
  "c \<notin> set s \<Longrightarrow> drop 1 (dropWhile (\<lambda>x. x \<noteq> c) s) = []"
proof -
  assume "c \<notin> set s"
  then have d: "dropWhile (\<lambda>x. x \<noteq> c) s = []" by (auto simp: dropWhile_eq_Nil_conv)
  show ?thesis unfolding d by simp
qed

lemma or_zero_split_0:
  "or_zero (at_index (js_split c s) 0) =
     (if takeWhile (\<lambda>x. x \<noteq> c) s = [] then ''0'' else takeWhile (\<lambda>x. x \<noteq> c) s)"
  by (simp add: at_index_split_0 or_zero_def truthy_def)

lemma truthy_split_1:
  "truthy (at_index (js_split c s) (Suc 0)) \<longleftrightarrow>
     takeWhile (\<lambda>x. x \<noteq> c) (drop 1 (dropWhile (\<lambda>x. x \<noteq> c) s)) \<noteq> []"
proof (cases "c \<in> set s")
  case True
  then show ?thesis by (simp add: at_index_split_Suc at_index_split_0 truthy_def)
next
  case False
  then show ?thesis
    unfolding at_index_split_Suc after_absent[OF False] by (simp add: truthy_def)
qed

lemma the_split_1:
  "truthy (at_index (js_split c s) (Suc 0)) \<Longrightarrow>
     the (at_index (js_split c s) (Suc 0)) =
       takeWhile (\<lambda>x. x \<noteq> c) (drop 1 (dropWhile (\<lambda>x. x \<noteq> c) s))"
  by (cases "c \<in> set s")
     (simp_all add: at_index_split_Suc at_index_split_0 truthy_def)

lemma or_zero_split_1:
  "or_zero (at_index (js_split c s) (Suc 0)) =
     (if takeWhile (\<lambda>x. x \<noteq> c) (drop 1 (dropWhile (\<lambda>x. x \<noteq> c) s)) = [] then ''0''
      else takeWhile (\<lambda>x. x \<noteq> c) (drop 1 (dropWhile (\<lambda>x. x \<noteq> c) s)))"
  using truthy_split_1[of c s] the_split_1[of c s] by (simp add: or_zero_def)

lemma or_zero_split_2:
  "or_zero (at_index (js_split c s) (Suc (Suc 0))) =
     (if takeWhile (\<lambda>x. x \<noteq> c)
           (drop 1 (dropWhile (\<lambda>x. x \<noteq> c) (drop 1 (dropWhile (\<lambda>x. x \<noteq> c) s)))) = []
      then ''0''
      else takeWhile (\<lambda>x. x \<noteq> c)
             (drop 1 (dropWhile (\<lambda>x. x \<noteq> c) (drop 1 (dropWhile (\<lambda>x. x \<noteq> c) s)))))"
proof (cases "c \<in> set s")
  case True
  then show ?thesis
    using or_zero_split_1[of c "drop 1 (dropWhile (\<lambda>x. x \<noteq> c) s)"]
    by (simp add: at_index_split_Suc[of c s "Suc 0"])
next
  case False
  then show ?thesis
    unfolding at_index_split_Suc[of c s "Suc 0"] after_absent[OF False]
    by (simp add: or_zero_def truthy_def)
qed

lemma variationsToCheck_parts:
  "variationsToCheck version =
     (let main = takeWhile (\<lambda>x. x \<noteq> CHR ''-'') version;
          tag = takeWhile (\<lambda>x. x \<noteq> CHR ''-'')
                  (drop 1 (dropWhile (\<lambda>x. x \<noteq> CHR ''-'') version));
          afterMajor = drop 1 (dropWhile (\<lambda>x. x \<noteq> CHR ''.'') main);
          afterMinor = drop 1 (dropWhile (\<lambda>x. x \<noteq> CHR ''.'') afterMajor);
          fill = (\<lambda>part. if part = [] then ''0'' else part);
          major = fill (takeWhile (\<lambda>x. x \<noteq> CHR ''.'') main);
          minor = fill (takeWhile (\<lambda>x. x \<noteq> CHR ''.'') afterMajor);
          patch = fill (takeWhile (\<lambda>x. x \<noteq> CHR ''.'') afterMinor)
      in [if tag = [] then major @ ''.'' @ minor @ ''.'' @ patch
          else major @ ''.'' @ minor @ ''.'' @ patch @ ''-'' @ tag,
          major @ ''.'' @ minor @ ''.'' @ patch,
          major @ ''.'' @ minor @ ''.0'',
          major @ ''.0.0''])"
proof -
  have tag: "truthy (at_index (js_split CHR ''-'' version) 1) \<longleftrightarrow>
       takeWhile (\<lambda>x. x \<noteq> CHR ''-'') (drop 1 (dropWhile (\<lambda>x. x \<noteq> CHR ''-'') version)) \<noteq> []"
    using truthy_split_1[of "CHR ''-''" version] by simp
  have the_tag: "truthy (at_index (js_split CHR ''-'' version) 1) \<Longrightarrow>
       the (at_index (js_split CHR ''-'' version) 1) =
       takeWhile (\<lambda>x. x \<noteq> CHR ''-'') (drop 1 (dropWhile (\<lambda>x. x \<noteq> CHR ''-'') version))"
    using the_split_1[of "CHR ''-''" version] by simp
  have main: "the (at_index (js_split CHR ''-'' version) 0) = takeWhile (\<lambda>x. x \<noteq> CHR ''-'') version"
    by (simp add: at_index_split_0)
  have p1: "or_zero (at_index (js_split c s) 1) = or_zero (at_index (js_split c s) (Suc 0))" for c s
    by simp
  have p2: "or_zero (at_index (js_split c s) 2) = or_zero (at_index (js_split c s) (Suc (Suc 0)))"
    for c s
    by (simp add: numeral_2_eq_2)
  show ?thesis
  proof (cases "truthy (at_index (js_split CHR ''-'' version) 1)")
    case True
    with tag the_tag show ?thesis
      unfolding variationsToCheck_def Let_def main p1 p2
        or_zero_split_0 or_zero_split_1 or_zero_split_2
      by simp
  next
    case False
    with tag show ?thesis
      unfolding variationsToCheck_def Let_def main p1 p2
        or_zero_split_0 or_zero_split_1 or_zero_split_2
      by simp
  qed
qed

text \<open>
  What the constructor of \<open>SemVer\<close> does with a string whose first character cannot start
  a version, and with \<open>0.0.0\<close> followed by a prerelease.
\<close>

lemma split_join:
  assumes "c \<in> set s"
  shows "s = takeWhile (\<lambda>x. x \<noteq> c) s @ c # drop 1 (dropWhile (\<lambda>x. x \<noteq> c) s)"
proof -
  from assms have ne: "dropWhile (\<lambda>x. x \<noteq> c) s \<noteq> []"
    by (auto simp: dropWhile_eq_Nil_conv)
  then have "hd (dropWhile (\<lambda>x. x \<noteq> c) s) = c"
    using hd_dropWhile[of "\<lambda>x. x \<noteq> c" s] by simp
  with ne have "dropWhile (\<lambda>x. x \<noteq> c) s = c # drop 1 (dropWhile (\<lambda>x. x \<noteq> c) s)"
    by (cases "dropWhile (\<lambda>x. x \<noteq> c) s") simp_all
  then show ?thesis
    using takeWhile_dropWhile_id[of "\<lambda>x. x \<noteq> c" s] by simp
qed

lemma js_split_append: "c \<notin> set s \<Longrightarrow> js_split c (s @ c # r) = s # js_split c r"
  by (induction s) auto

lemma cut_at_absent: "c \<notin> set s \<Longrightarrow> cut_at c s = (s, None)"
  by (induction s) auto

lemma trim_prefix:
  assumes "p \<noteq> []" and "\<not> is_space (hd p)" and "\<not> is_space (last p)"
  shows "\<exists>t'. trim (p @ t) = p @ t'"
proof -
  from assms have a: "dropWhile is_space (p @ t) = p @ t"
    by (cases p) simp_all
  from assms have b: "dropWhile is_space (rev p) = rev p"
    by (cases "rev p") (simp_all add: last_rev[symmetric] hd_rev)
  show ?thesis
  proof (cases "\<forall>x\<in>set (rev t). is_space x")
    case True
    then have "dropWhile is_space (rev t @ rev p) = rev p"
      using b by (simp add: dropWhile_append)
    then have "trim (p @ t) = p @ []" by (simp add: trim_def a)
    then show ?thesis by blast
  next
    case False
    then have "dropWhile is_space (rev t @ rev p) = dropWhile is_space (rev t) @ rev p"
      by (auto simp: dropWhile_append)
    then have "trim (p @ t) = p @ rev (dropWhile is_space (rev t))" by (simp add: trim_def a)
    then show ?thesis by blast
  qed
qed

lemma trim_first: "\<not> is_space x \<Longrightarrow> \<exists>t'. trim (x # t) = x # t'"
  using trim_prefix[of "[x]" t] by simp

lemma trim_no_space: "\<forall>x\<in>set s. \<not> is_space x \<Longrightarrow> trim s = s"
proof -
  assume a: "\<forall>x\<in>set s. \<not> is_space x"
  then have "dropWhile is_space s = s" by (cases s) simp_all
  moreover have "dropWhile is_space (rev s) = rev s"
  proof (cases "rev s")
    case Nil
    then show ?thesis by simp
  next
    case (Cons y ys)
    then have "y \<in> set s" by (metis list.set_intros(1) set_rev)
    with a Cons show ?thesis by simp
  qed
  ultimately show ?thesis by (simp add: trim_def)
qed

lemma parseMain_empty: "parseMain [] = None"
  by (simp add: parseMain_def)

lemma parseMain_bad_start: "\<not> is_digit x \<Longrightarrow> parseMain (x # m) = None"
proof -
  assume nd: "\<not> is_digit x"
  have "\<not> numericIdentifier (takeWhile (\<lambda>y. y \<noteq> CHR ''.'') (x # m))"
    using nd by (auto simp: numericIdentifier_def all_digits_def)
  then show ?thesis
    unfolding parseMain_def
    by (subst js_split_first) (auto split: list.splits)
qed

lemma parseSemVer_bad_start:
  assumes "\<not> is_digit x" and "x \<noteq> CHR ''v''" and "\<not> is_space x"
  shows "parseSemVer (x # t) = None"
proof -
  obtain t' where tr: "trim (x # t) = x # t'" using trim_first[OF assms(3)] by blast
  have sv: "strip_v (x # t') = x # t'" using assms(2) by (simp add: strip_v_def)
  obtain mp b where c1: "cut_at CHR ''+'' (x # t') = (mp, b)" by (cases "cut_at CHR ''+'' (x # t')")
  obtain m p where c2: "cut_at CHR ''-'' mp = (m, p)" by (cases "cut_at CHR ''-'' mp")
  have "mp = [] \<or> (\<exists>r. mp = x # r)"
    using c1 by (auto split: if_splits prod.splits)
  then have "m = [] \<or> (\<exists>r. m = x # r)"
    using c2 by (auto split: if_splits prod.splits)
  then have "parseMain m = None"
    using parseMain_empty parseMain_bad_start[OF assms(1)] by auto
  then show ?thesis
    unfolding parseSemVer_def tr sv c1 by (simp add: c2)
qed

lemma semver_gt_bad_start:
  assumes "\<not> is_digit x" and "x \<noteq> CHR ''v''" and "\<not> is_space x"
  shows "semver_gt (x # t) b \<noteq> Inr True"
  by (simp add: semver_gt_def semver_compare_def parseSemVer_bad_start[OF assms])

lemma parseSemVer_zero:
  "parseSemVer ''0.0.0'' = Some \<lparr>major = 0, minor = 0, patch = 0, prerelease = [], build = []\<rparr>"
  by code_simp

lemma parseMain_zero: "parseMain ''0.0.0'' = Some (0, 0, 0)"
  by code_simp

lemma parseSemVer_zero_prerelease:
  assumes "parseSemVer (''0.0.0-'' @ t) = Some v"
  shows "major v = 0 \<and> minor v = 0 \<and> patch v = 0 \<and> prerelease v \<noteq> []"
proof -
  have sp: "\<not> is_space CHR ''0''" "\<not> is_space CHR ''-''" by code_simp+
  obtain t' where tr: "trim (''0.0.0-'' @ t) = ''0.0.0-'' @ t'"
    using trim_prefix[of "''0.0.0-''" t] sp by auto
  have sv: "strip_v (''0.0.0-'' @ t') = ''0.0.0-'' @ t'" by (simp add: strip_v_def)
  obtain a b where c0: "cut_at CHR ''+'' t' = (a, b)" by (cases "cut_at CHR ''+'' t'")
  have c1: "cut_at CHR ''+'' (''0.0.0-'' @ t') = (''0.0.0-'' @ a, b)"
    using c0 by simp
  have c2: "cut_at CHR ''-'' (''0.0.0-'' @ a) = (''0.0.0'', Some a)"
    by simp
  from assms show ?thesis
    unfolding parseSemVer_def tr sv c1
    by (auto simp: c2 parseMain_zero parsePrerelease_def js_split_not_empty
             split: if_splits option.splits prod.splits)
qed

lemma semver_gt_zero_prerelease: "semver_gt (''0.0.0-'' @ t) ''0.0.0'' \<noteq> Inr True"
proof (cases "parseSemVer (''0.0.0-'' @ t)")
  case None
  then show ?thesis by (simp add: semver_gt_def semver_compare_def)
next
  case (Some v)
  from parseSemVer_zero_prerelease[OF Some]
  have "compare v \<lparr>major = 0, minor = 0, patch = 0, prerelease = [], build = []\<rparr> = -1"
    by (simp add: compare_def compareMain_def compareNumbers_def comparePre_def)
  with Some show ?thesis
    by (simp add: semver_gt_def semver_compare_def parseSemVer_zero)
qed

lemma semver_gt_zero_zero: "semver_gt ''0.0.0'' ''0.0.0'' \<noteq> Inr True"
  by code_simp

text \<open>\<open>normalizeVersion\<close> on particular shapes of input.\<close>

lemma firstAboveZero_none:
  "\<forall>v\<in>set xs. semver_gt v ''0.0.0'' \<noteq> Inr True \<Longrightarrow> firstAboveZero xs = ''0.0.0''"
proof (induction xs)
  case Nil
  show ?case by simp
next
  case (Cons x xs)
  then show ?case by (auto split: sum.splits bool.splits)
qed

lemma normalizeVersion_other_start:
  assumes "\<not> is_digit x" and "x \<noteq> CHR ''v''" and "x \<noteq> CHR ''.''" and "\<not> is_space x"
  shows "normalizeVersion (x # xs) = ''0.0.0''"
proof (cases "x = CHR ''-''")
  case True
  have "\<forall>v\<in>set (variationsToCheck (x # xs)). semver_gt v ''0.0.0'' \<noteq> Inr True"
    unfolding variationsToCheck_parts Let_def True
    using semver_gt_zero_prerelease semver_gt_zero_zero
    by simp
  then show ?thesis by (simp add: normalizeVersion_def firstAboveZero_none)
next
  case False
  have bad: "semver_gt (x # t) ''0.0.0'' \<noteq> Inr True" for t
    using semver_gt_bad_start[OF assms(1,2,4)] by simp
  have "\<forall>v\<in>set (variationsToCheck (x # xs)). semver_gt v ''0.0.0'' \<noteq> Inr True"
    unfolding variationsToCheck_parts Let_def
    using False assms(3) bad
    by simp
  then show ?thesis by (simp add: normalizeVersion_def firstAboveZero_none)
qed

lemma takeWhile_absent: "c \<notin> set s \<Longrightarrow> takeWhile (\<lambda>x. x \<noteq> c) s = s"
  by (induction s) auto

lemma is_digit_plain:
  "is_digit c \<Longrightarrow> \<not> is_space c \<and> c \<noteq> CHR ''v'' \<and> c \<noteq> CHR ''+'' \<and> c \<noteq> CHR ''-'' \<and> c \<noteq> CHR ''.''"
  by (auto simp: is_digit_def is_space_def code_unit_def)

lemma digit_value_range: "is_digit c \<Longrightarrow> 0 \<le> digit_value c \<and> (c \<noteq> CHR ''0'' \<longrightarrow> 1 \<le> digit_value c)"
proof -
  assume d: "is_digit c"
  have "c = CHR ''0''" if "code_unit c = 48"
  proof -
    have "of_char c = (of_char CHR ''0'' :: int)" using that by (simp add: code_unit_def)
    then show ?thesis by (simp only: of_char_eq_iff)
  qed
  then have "c \<noteq> CHR ''0'' \<longrightarrow> code_unit c \<noteq> 48" by blast
  moreover from d have "48 \<le> code_unit c" by (simp add: is_digit_def)
  ultimately show ?thesis unfolding digit_value_def by linarith
qed

lemma to_number_snoc: "to_number (s @ [c]) = 10 * to_number s + digit_value c"
  by (simp add: to_number_def)

lemma to_number_lower:
  "s \<noteq> [] \<Longrightarrow> list_all is_digit s \<Longrightarrow> hd s \<noteq> CHR ''0'' \<Longrightarrow> 10 ^ (length s - 1) \<le> to_number s"
proof (induction s rule: rev_induct)
  case Nil
  then show ?case by simp
next
  case (snoc c s)
  show ?case
  proof (cases "s = []")
    case True
    with snoc.prems digit_value_range[of c] show ?thesis
      by (simp add: to_number_def)
  next
    case False
    with snoc have "10 ^ (length s - 1) \<le> to_number s" by simp
    then have "10 * 10 ^ (length s - 1) \<le> 10 * to_number s" by simp
    moreover from False have "(10::int) * 10 ^ (length s - 1) = 10 ^ length s"
      by (cases s) simp_all
    moreover from snoc.prems digit_value_range[of c] have "0 \<le> digit_value c" by simp
    ultimately show ?thesis by (simp add: to_number_snoc)
  qed
qed

lemma numericIdentifier_length:
  assumes "numericIdentifier s" and "to_number s \<le> MAX_SAFE_INTEGER"
  shows "length s \<le> 16"
proof (cases "s = ''0''")
  case True
  then show ?thesis by simp
next
  case False
  with assms(1) have "s \<noteq> []" "list_all is_digit s" "hd s \<noteq> CHR ''0''"
    by (auto simp: numericIdentifier_def all_digits_def)
  from to_number_lower[OF this] assms(2)
  have "(10::int) ^ (length s - 1) \<le> 9007199254740991" by (simp add: MAX_SAFE_INTEGER_def)
  also have "\<dots> < (10::int) ^ 16" by simp
  finally have "length s - 1 < 16" by (simp only: power_strict_increasing_iff)
  then show ?thesis by simp
qed

lemma parseSemVer_single_integer:
  assumes "all_digits s"
  shows "parseSemVer (s @ ''.0.0'') =
           (if numericIdentifier s \<and> to_number s \<le> MAX_SAFE_INTEGER
            then Some \<lparr>major = to_number s, minor = 0, patch = 0, prerelease = [], build = []\<rparr>
            else None)"
proof -
  from assms have ne: "s \<noteq> []" and dig: "\<forall>c\<in>set s. is_digit c"
    by (auto simp: all_digits_def list_all_iff)
  have zero: "is_digit CHR ''0''" by code_simp
  have "\<forall>c\<in>set (s @ ''.0.0''). \<not> is_space c"
    using dig is_digit_plain zero by (auto simp: is_space_def code_unit_def)
  then have tr: "trim (s @ ''.0.0'') = s @ ''.0.0''" by (rule trim_no_space)
  have sv: "strip_v (s @ ''.0.0'') = s @ ''.0.0''"
    using ne dig is_digit_plain by (cases s) (auto simp: strip_v_def)
  have c1: "cut_at CHR ''+'' (s @ ''.0.0'') = (s @ ''.0.0'', None)"
    using dig is_digit_plain by (intro cut_at_absent) auto
  have c2: "cut_at CHR ''-'' (s @ ''.0.0'') = (s @ ''.0.0'', None)"
    using dig is_digit_plain by (intro cut_at_absent) auto
  have "CHR ''.'' \<notin> set s" using dig is_digit_plain by auto
  then have sp: "js_split CHR ''.'' (s @ ''.0.0'') = [s, ''0'', ''0'']"
    by (simp add: js_split_append)
  have n0: "numericIdentifier ''0''" by code_simp
  have t0: "to_number ''0'' = 0" by code_simp
  have m0: "(0::int) \<le> MAX_SAFE_INTEGER" by (simp add: MAX_SAFE_INTEGER_def)
  have pm: "parseMain (s @ ''.0.0'') =
              (if numericIdentifier s \<and> to_number s \<le> MAX_SAFE_INTEGER
               then Some (to_number s, 0, 0) else None)"
    unfolding parseMain_def sp using n0 t0 m0 by simp
  have len: "\<not> int (length (s @ ''.0.0'')) > MAX_LENGTH"
    if "numericIdentifier s" "to_number s \<le> MAX_SAFE_INTEGER"
    using numericIdentifier_length[OF that] by (simp add: MAX_LENGTH_def)
  show ?thesis
  proof (cases "numericIdentifier s \<and> to_number s \<le> MAX_SAFE_INTEGER")
    case True
    with len have l: "\<not> int (length (s @ ''.0.0'')) > MAX_LENGTH" by simp
    from True have "parseMain (s @ ''.0.0'') = Some (to_number s, 0, 0)" using pm by simp
    then show ?thesis
      unfolding parseSemVer_def tr sv c1 using l True
      by (simp add: c2 parsePrerelease_def parseBuild_def del: length_append)
  next
    case False
    then have "parseMain (s @ ''.0.0'') = None" using pm by auto
    then show ?thesis
      unfolding parseSemVer_def tr sv c1 using False
      by (simp add: c2 del: length_append)
  qed
qed

lemma semver_gt_single_integer:
  assumes "all_digits s"
  shows "semver_gt (s @ ''.0.0'') ''0.0.0'' = Inr True \<longleftrightarrow>
           numericIdentifier s \<and> 0 < to_number s \<and> to_number s \<le> MAX_SAFE_INTEGER"
  unfolding semver_gt_def semver_compare_def parseSemVer_single_integer[OF assms] parseSemVer_zero
  by (auto simp: compare_def compareMain_def compareNumbers_def comparePre_def)

lemma normalizeVersion_digits:
  assumes "all_digits s"
  shows "normalizeVersion s =
           (if numericIdentifier s \<and> 0 < to_number s \<and> to_number s \<le> MAX_SAFE_INTEGER
            then s @ ''.0.0'' else ''0.0.0'')"
proof -
  from assms have ne: "s \<noteq> []" and dig: "\<forall>c\<in>set s. is_digit c"
    by (auto simp: all_digits_def list_all_iff)
  have a: "CHR ''-'' \<notin> set s" and b: "CHR ''.'' \<notin> set s"
    using dig is_digit_plain by auto
  have t1: "takeWhile (\<lambda>x. x \<noteq> CHR ''-'') s = s" using a by (rule takeWhile_absent)
  have t2: "takeWhile (\<lambda>x. x \<noteq> CHR ''.'') s = s" using b by (rule takeWhile_absent)
  have vs: "variationsToCheck s = [s @ ''.0.0'', s @ ''.0.0'', s @ ''.0.0'', s @ ''.0.0'']"
    unfolding variationsToCheck_parts Let_def t1 t2 after_absent[OF a] after_absent[OF b]
    using ne by simp
  show ?thesis
    unfolding normalizeVersion_def vs
    using semver_gt_single_integer[OF assms]
    by (auto split: sum.splits bool.splits)
qed

lemma normalizeVersion_unchanged:
  assumes "CHR ''-'' \<notin> set version"
    and "js_split CHR ''.'' version = [a, b, c]"
    and "a \<noteq> []" and "b \<noteq> []" and "c \<noteq> []"
    and "semver_gt version ''0.0.0'' = Inr True"
  shows "normalizeVersion version = version"
proof -
  let ?P = "\<lambda>x. x \<noteq> CHR ''.''"
  let ?r1 = "drop 1 (dropWhile ?P version)"
  let ?r2 = "drop 1 (dropWhile ?P ?r1)"
  have s1: "js_split CHR ''.'' version =
              takeWhile ?P version # (if CHR ''.'' \<in> set version then js_split CHR ''.'' ?r1 else [])"
    by (rule js_split_first)
  with assms(2) have a: "a = takeWhile ?P version" and in1: "CHR ''.'' \<in> set version"
    and s2: "js_split CHR ''.'' ?r1 = [b, c]"
    by (auto split: if_splits)
  have "js_split CHR ''.'' ?r1 =
          takeWhile ?P ?r1 # (if CHR ''.'' \<in> set ?r1 then js_split CHR ''.'' ?r2 else [])"
    by (rule js_split_first)
  with s2 have b: "b = takeWhile ?P ?r1" and in2: "CHR ''.'' \<in> set ?r1"
    and s3: "js_split CHR ''.'' ?r2 = [c]"
    by (auto split: if_splits)
  have "js_split CHR ''.'' ?r2 =
          takeWhile ?P ?r2 # (if CHR ''.'' \<in> set ?r2 then js_split CHR ''.'' (drop 1 (dropWhile ?P ?r2)) else [])"
    by (rule js_split_first)
  with s3 have c: "c = takeWhile ?P ?r2" and in3: "CHR ''.'' \<notin> set ?r2"
    using js_split_not_empty[of "CHR ''.''" "drop 1 (dropWhile ?P ?r2)"]
    by (auto split: if_splits)
  from in3 have c': "takeWhile ?P ?r2 = ?r2" by (rule takeWhile_absent)
  have j1: "version = a @ CHR ''.'' # ?r1" unfolding a using split_join[OF in1] .
  have j2: "?r1 = b @ CHR ''.'' # ?r2" unfolding b using split_join[OF in2] .
  have "a @ CHR ''.'' # b @ CHR ''.'' # c = version"
    by (metis j1 j2 c c')
  then have whole: "a @ ''.'' @ b @ ''.'' @ c = version" by simp
  have t1: "takeWhile (\<lambda>x. x \<noteq> CHR ''-'') version = version"
    using assms(1) by (rule takeWhile_absent)
  have hd: "\<exists>rest. variationsToCheck version = version # rest"
    unfolding variationsToCheck_parts Let_def t1 after_absent[OF assms(1)]
      a[symmetric] b[symmetric] c[symmetric]
    using assms(3,4,5) whole by simp
  then obtain rest where "variationsToCheck version = version # rest" by blast
  then show ?thesis
    using assms(6) by (simp add: normalizeVersion_def)
qed

section \<open>Claim C1: the window of an emitted migration\<close>

text \<open>
  Claim C1. Let \<open>createMigrateJson\<close> return a list of migrations in a state of the planner,
  in particular the final one. A package of the plan whose installed version (with the
  \<open>--from\<close> overrides) is \<open>null\<close> has no migration in the list. Every migration of the
  list belongs to a package of the plan that is installed, has a version, and that version
  is greater than the installed one and at most the planned one, both compared by semver
  after \<open>normalizeVersion\<close>; and its \<open>requires\<close> are met by the installed and the planned
  versions of that state.
\<close>

theorem createMigrateJson_emits_inside_window:
  assumes "createMigrateJson M st = Inr migrations"
  shows "(getPkgVersion M st p = None \<longrightarrow> (\<forall>m \<in> set migrations. mig_package m \<noteq> p))
       \<and> (m \<in> set migrations \<longrightarrow>
           (\<exists>planned installed v.
               map_of (packageUpdates st) (mig_package m) = Some planned
             \<and> getPkgVersion M st (mig_package m) = Some installed
             \<and> mig_version m = Some v
             \<and> semver_gt (normalizeVersion v) (normalizeVersion installed) = Inr True
             \<and> semver_lte (normalizeVersion v) (normalizeVersion (pu_version planned)) = Inr True
             \<and> areRequirementsMet M st (mig_requires m) None))"
proof -
  have main: "\<exists>planned installed v.
               map_of (packageUpdates st) (mig_package m') = Some planned
             \<and> getPkgVersion M st (mig_package m') = Some installed
             \<and> mig_version m' = Some v
             \<and> semver_gt (normalizeVersion v) (normalizeVersion installed) = Inr True
             \<and> semver_lte (normalizeVersion v) (normalizeVersion (pu_version planned)) = Inr True
             \<and> areRequirementsMet M st (mig_requires m') None"
    if "m' \<in> set migrations" for m'
  proof -
    from assms obtain lists where
      c: "collectAll (migrationsOfPackage M st) (map fst (packageUpdates st)) = Inr lists"
      and ms: "migrations = concat lists"
      by (auto simp: createMigrateJson_def split: sum.splits)
    from collectAll_member[OF c] that ms obtain packageName ms' where
      "migrationsOfPackage M st packageName = Inr ms'" and "m' \<in> set ms'"
      by blast
    from migrationsOfPackage_window[OF this] show ?thesis
      by (auto simp: Migrator_gt_semver Migrator_lte_semver)
  qed
  show ?thesis
  proof (intro conjI impI ballI)
    fix m' assume "getPkgVersion M st p = None" and "m' \<in> set migrations"
    with main[of m'] show "mig_package m' \<noteq> p" by auto
  next
    assume "m \<in> set migrations"
    then show "\<exists>planned installed v.
               map_of (packageUpdates st) (mig_package m) = Some planned
             \<and> getPkgVersion M st (mig_package m) = Some installed
             \<and> mig_version m = Some v
             \<and> semver_gt (normalizeVersion v) (normalizeVersion installed) = Inr True
             \<and> semver_lte (normalizeVersion v) (normalizeVersion (pu_version planned)) = Inr True
             \<and> areRequirementsMet M st (mig_requires m) None"
      by (rule main)
  qed
qed

theorem createMigrateJson_emits_inside_window_witness:
  "createMigrateJson example_Migrator example_planned =
     Inr [withPackageAndName (plain_migration ''1.5.0'' None) ''pkg'' ''m1'',
          withPackageAndName (plain_migration ''2.0.0'' (Some [(''peer'', ''>=3.0.0'')]))
            ''pkg'' ''m2'']
   \<and> plan_versions (packageUpdates example_planned) =
       [(''pkg'', ''2.0.0''), (''newdep'', ''1.1.0''), (''peer'', ''3.0.0''), (''child'', ''2.0.0'')]
   \<and> getPkgVersion example_Migrator example_planned ''newdep'' = None
   \<and> (\<exists>planned installed v.
         map_of (packageUpdates example_planned) ''pkg'' = Some planned
       \<and> getPkgVersion example_Migrator example_planned ''pkg'' = Some installed
       \<and> Some ''2.0.0'' = Some v
       \<and> semver_gt (normalizeVersion v) (normalizeVersion installed) = Inr True
       \<and> semver_lte (normalizeVersion v) (normalizeVersion (pu_version planned)) = Inr True
       \<and> areRequirementsMet example_Migrator example_planned (Some [(''peer'', ''>=3.0.0'')]) None)"
proof -
  let ?m1 = "withPackageAndName (plain_migration ''1.5.0'' None) ''pkg'' ''m1''"
  let ?m2 = "withPackageAndName (plain_migration ''2.0.0'' (Some [(''peer'', ''>=3.0.0'')]))
               ''pkg'' ''m2''"
  have run: "createMigrateJson example_Migrator example_planned = Inr [?m1, ?m2]"
    by code_simp
  have plan: "plan_versions (packageUpdates example_planned) =
       [(''pkg'', ''2.0.0''), (''newdep'', ''1.1.0''), (''peer'', ''3.0.0''), (''child'', ''2.0.0'')]"
    by code_simp
  have absent: "getPkgVersion example_Migrator example_planned ''newdep'' = None"
    by code_simp
  have fields: "mig_package ?m2 = ''pkg''" "mig_version ?m2 = Some ''2.0.0''"
    "mig_requires ?m2 = Some [(''peer'', ''>=3.0.0'')]"
    by (simp_all add: withPackageAndName_def plain_migration_def)
  have mem: "?m2 \<in> set [?m1, ?m2]" by simp
  from createMigrateJson_emits_inside_window[OF run, of "''newdep''" ?m2] mem
  have "\<exists>planned installed v.
         map_of (packageUpdates example_planned) (mig_package ?m2) = Some planned
       \<and> getPkgVersion example_Migrator example_planned (mig_package ?m2) = Some installed
       \<and> mig_version ?m2 = Some v
       \<and> semver_gt (normalizeVersion v) (normalizeVersion installed) = Inr True
       \<and> semver_lte (normalizeVersion v) (normalizeVersion (pu_version planned)) = Inr True
       \<and> areRequirementsMet example_Migrator example_planned (mig_requires ?m2) None"
    by blast
  then show ?thesis unfolding fields using run plan absent by blast
qed

section \<open>Claim C2: versions in the plan never decrease\<close>

text \<open>
  Claim C2. \<open>addPackageUpdate\<close> is the only writer of \<open>packageUpdates\<close>. After it, a package
  that had an entry still has one: the old entry, or the incoming one when its version is
  strictly greater under the normalizing comparison; so the version has not decreased. The
  same holds from any state of the planner to the state in which a call of
  \<open>buildPackageJsonUpdates\<close> or of \<open>populatePackageJsonUpdatesAndGetPackagesToCheck\<close>
  started there returns, for every package and every amount of fuel.
\<close>

theorem packageUpdates_never_decrease:
  "(map_of (packageUpdates st) p = Some u \<longrightarrow>
      (\<exists>u'. map_of (packageUpdates (addPackageUpdate st name new)) p = Some u'
            \<and> (u' = u \<or> (p = name \<and> u' = new \<and> Migrator_gt (pu_version new) (pu_version u)))
            \<and> Migrator_lte (pu_version u) (pu_version u')))
   \<and> (buildPackageJsonUpdates fuel M st targetPackage target = Inr st'
        \<longrightarrow> map_of (packageUpdates st) p = Some u
        \<longrightarrow> (\<exists>u'. map_of (packageUpdates st') p = Some u'
                  \<and> Migrator_lte (pu_version u) (pu_version u')))
   \<and> (populatePackageJsonUpdatesAndGetPackagesToCheck fuel M st targetPackage target
          = Inr (pkgs, st')
        \<longrightarrow> map_of (packageUpdates st) p = Some u
        \<longrightarrow> (\<exists>u'. map_of (packageUpdates st') p = Some u'
                  \<and> Migrator_lte (pu_version u) (pu_version u')))"
proof (intro conjI impI)
  assume a: "map_of (packageUpdates st) p = Some u"
  from addPackageUpdate_replaces_only_greater[OF a, of name new]
  obtain u' where u': "map_of (packageUpdates (addPackageUpdate st name new)) p = Some u'"
    "u' = u \<or> (p = name \<and> u' = new \<and> Migrator_gt (pu_version new) (pu_version u))"
    by blast
  then have "Migrator_lte (pu_version u) (pu_version u')"
    by (auto simp: Migrator_lte_refl Migrator_gt_imp_lte)
  with u' show "\<exists>u'. map_of (packageUpdates (addPackageUpdate st name new)) p = Some u'
            \<and> (u' = u \<or> (p = name \<and> u' = new \<and> Migrator_gt (pu_version new) (pu_version u)))
            \<and> Migrator_lte (pu_version u) (pu_version u')"
    by blast
next
  assume b: "buildPackageJsonUpdates fuel M st targetPackage target = Inr st'"
    and a: "map_of (packageUpdates st) p = Some u"
  from buildPackageJsonUpdates_plan_le[OF b] a
  show "\<exists>u'. map_of (packageUpdates st') p = Some u' \<and> Migrator_lte (pu_version u) (pu_version u')"
    by (simp add: plan_le_def)
next
  assume b: "populatePackageJsonUpdatesAndGetPackagesToCheck fuel M st targetPackage target
               = Inr (pkgs, st')"
    and a: "map_of (packageUpdates st) p = Some u"
  from populate_plan_le[OF b] a
  show "\<exists>u'. map_of (packageUpdates st') p = Some u' \<and> Migrator_lte (pu_version u) (pu_version u')"
    by (simp add: plan_le_def)
qed

theorem packageUpdates_never_decrease_witness:
  "\<exists>st' u'.
     buildPackageJsonUpdates 2 example_Migrator
        ((newMigratorState Map.empty)\<lparr>packageUpdates := [(''pkg'', plain_update ''1.5.0'')]\<rparr>)
        ''pkg'' example_target = Inr st'
     \<and> plan_versions (packageUpdates st') = [(''pkg'', ''2.0.0''), (''newdep'', ''1.1.0''), (''peer'', ''3.0.0''),
          (''child'', ''2.0.0'')]
     \<and> map_of (packageUpdates st') ''pkg'' = Some u'
     \<and> Migrator_lte ''1.5.0'' (pu_version u')
     \<and> map_of (packageUpdates (addPackageUpdate
            ((newMigratorState Map.empty)\<lparr>packageUpdates := [(''pkg'', plain_update ''1.5.0'')]\<rparr>)
            ''pkg'' (plain_update ''1.2.0''))) ''pkg'' = Some (plain_update ''1.5.0'')"
proof -
  let ?st = "(newMigratorState Map.empty)\<lparr>packageUpdates := [(''pkg'', plain_update ''1.5.0'')]\<rparr>"
  let ?run = "buildPackageJsonUpdates 2 example_Migrator ?st ''pkg'' example_target"
  have ran: "\<not> isl ?run" by code_simp
  then obtain st' where st': "?run = Inr st'" by (cases ?run) auto
  have vs: "plan_versions (packageUpdates (projr ?run))
              = [(''pkg'', ''2.0.0''), (''newdep'', ''1.1.0''), (''peer'', ''3.0.0''),
          (''child'', ''2.0.0'')]"
    by code_simp
  have before: "map_of (packageUpdates ?st) ''pkg'' = Some (plain_update ''1.5.0'')"
    by (simp add: newMigratorState_def)
  have v: "pu_version (plain_update ''1.5.0'') = ''1.5.0''" by (simp add: plain_update_def)
  have smaller: "\<not> Migrator_gt (pu_version (plain_update ''1.2.0'')) (pu_version (plain_update ''1.5.0''))"
    by code_simp
  note inst = packageUpdates_never_decrease[of ?st "''pkg''" "plain_update ''1.5.0''" "''pkg''"
      "plain_update ''1.2.0''" 2 example_Migrator "''pkg''" example_target st']
  from inst st' before obtain u' where
    u': "map_of (packageUpdates st') ''pkg'' = Some u'"
      "Migrator_lte (pu_version (plain_update ''1.5.0'')) (pu_version u')"
    by blast
  from inst before smaller have kept:
    "map_of (packageUpdates (addPackageUpdate ?st ''pkg'' (plain_update ''1.2.0''))) ''pkg''
       = Some (plain_update ''1.5.0'')"
    by auto
  from st' vs u' kept show ?thesis by (auto simp: v)
qed

section \<open>Claim C3: the fixed-point check\<close>

text \<open>
  Claim C3. Let the package be installed and the fetch return a document; its version is
  the target version from then on. If \<open>collectedVersions\<close> has a version for the package
  and semver's \<open>gte\<close> finds it greater than or equal to the target version, the call returns
  the empty list and the state it was given: no plan entry is added, and since this holds
  with one unit of fuel there is no recursive call. If \<open>collectedVersions\<close> has none, or
  \<open>gte\<close> answers no, the call is the rest of the method run in the state where
  \<open>collectedVersions\<close> of the package is the target version; when it returns, the plan has
  the package at the target version or above.
\<close>

theorem populate_fixed_point_check:
  assumes "truthy (getPkgVersion M st targetPackage)"
    and "fetch M targetPackage
           (if truthy (to_versions M targetPackage) then the (to_versions M targetPackage)
            else pu_version target) = Inr migrationConfig"
  shows "(truthy (collectedVersions st targetPackage)
          \<and> semver_gte (the (collectedVersions st targetPackage)) (cfg_version migrationConfig)
              = Inr True
          \<longrightarrow> populatePackageJsonUpdatesAndGetPackagesToCheck (Suc fuel) M st targetPackage target
                = Inr ([], st))
       \<and> ((if truthy (collectedVersions st targetPackage)
            then semver_gte (the (collectedVersions st targetPackage)) (cfg_version migrationConfig)
                   = Inr False
            else True)
          \<longrightarrow> populatePackageJsonUpdatesAndGetPackagesToCheck (Suc fuel) M st targetPackage target
                = populateFromConfig
                    (\<lambda>s name update.
                       populatePackageJsonUpdatesAndGetPackagesToCheck fuel M s name update)
                    M
                    (st\<lparr>collectedVersions :=
                         (collectedVersions st)(targetPackage \<mapsto> cfg_version migrationConfig)\<rparr>)
                    targetPackage target migrationConfig
              \<and> (\<forall>r st'. populatePackageJsonUpdatesAndGetPackagesToCheck (Suc fuel) M st
                              targetPackage target = Inr (r, st')
                    \<longrightarrow> (\<exists>e. map_of (packageUpdates st') targetPackage = Some e
                              \<and> Migrator_lte (cfg_version migrationConfig) (pu_version e))))"
proof (intro conjI impI allI)
  assume "truthy (collectedVersions st targetPackage)
          \<and> semver_gte (the (collectedVersions st targetPackage)) (cfg_version migrationConfig)
              = Inr True"
  with assms show "populatePackageJsonUpdatesAndGetPackagesToCheck (Suc fuel) M st targetPackage target
                = Inr ([], st)"
    by (simp add: alreadyCollected_def)
next
  assume c: "if truthy (collectedVersions st targetPackage)
            then semver_gte (the (collectedVersions st targetPackage)) (cfg_version migrationConfig)
                   = Inr False
            else True"
  with assms show eq: "populatePackageJsonUpdatesAndGetPackagesToCheck (Suc fuel) M st targetPackage target
                = populateFromConfig
                    (\<lambda>s name update.
                       populatePackageJsonUpdatesAndGetPackagesToCheck fuel M s name update)
                    M
                    (st\<lparr>collectedVersions :=
                         (collectedVersions st)(targetPackage \<mapsto> cfg_version migrationConfig)\<rparr>)
                    targetPackage target migrationConfig"
    by (simp add: alreadyCollected_def split: if_splits)
  fix r st'
  assume "populatePackageJsonUpdatesAndGetPackagesToCheck (Suc fuel) M st targetPackage target
            = Inr (r, st')"
  with eq have "populateFromConfig
                    (\<lambda>s name update.
                       populatePackageJsonUpdatesAndGetPackagesToCheck fuel M s name update)
                    M
                    (st\<lparr>collectedVersions :=
                         (collectedVersions st)(targetPackage \<mapsto> cfg_version migrationConfig)\<rparr>)
                    targetPackage target migrationConfig = Inr (r, st')"
    by simp
  from populateFromConfig_entry[OF this]
  show "\<exists>e. map_of (packageUpdates st') targetPackage = Some e
           \<and> Migrator_lte (cfg_version migrationConfig) (pu_version e)"
    by simp
qed

theorem populate_fixed_point_check_witness:
  "populatePackageJsonUpdatesAndGetPackagesToCheck (Suc 0) example_Migrator
      ((newMigratorState Map.empty)\<lparr>collectedVersions := [''child'' \<mapsto> ''2.0.0'']\<rparr>)
      ''child'' (plain_update ''2.0.0'')
     = Inr ([], (newMigratorState Map.empty)\<lparr>collectedVersions := [''child'' \<mapsto> ''2.0.0'']\<rparr>)
   \<and> (\<exists>r st' e.
         populatePackageJsonUpdatesAndGetPackagesToCheck (Suc 0) example_Migrator
            (newMigratorState Map.empty) ''child'' (plain_update ''2.0.0'') = Inr (r, st')
       \<and> map_of (packageUpdates st') ''child'' = Some e
       \<and> Migrator_lte ''2.0.0'' (pu_version e))"
proof -
  let ?seen = "(newMigratorState Map.empty)\<lparr>collectedVersions := [''child'' \<mapsto> ''2.0.0'']\<rparr>"
  let ?new = "newMigratorState Map.empty"
  let ?target = "plain_update ''2.0.0''"
  have installed_seen: "truthy (getPkgVersion example_Migrator ?seen ''child'')" by code_simp
  have installed_new: "truthy (getPkgVersion example_Migrator ?new ''child'')" by code_simp
  have fetched: "fetch example_Migrator ''child''
           (if truthy (to_versions example_Migrator ''child'')
            then the (to_versions example_Migrator ''child'')
            else pu_version ?target) = Inr (bare_document ''2.0.0'')"
    by code_simp
  have v: "cfg_version (bare_document ''2.0.0'') = ''2.0.0''" by (simp add: bare_document_def)
  have stop: "truthy (collectedVersions ?seen ''child'')
          \<and> semver_gte (the (collectedVersions ?seen ''child'')) (cfg_version (bare_document ''2.0.0''))
              = Inr True"
    by code_simp
  have continue: "if truthy (collectedVersions ?new ''child'')
            then semver_gte (the (collectedVersions ?new ''child'')) (cfg_version (bare_document ''2.0.0''))
                   = Inr False
            else True"
    by code_simp
  have first: "populatePackageJsonUpdatesAndGetPackagesToCheck (Suc 0) example_Migrator ?seen
                 ''child'' ?target = Inr ([], ?seen)"
    using populate_fixed_point_check[OF installed_seen fetched, of 0] stop by blast
  have returns: "\<not> isl (populatePackageJsonUpdatesAndGetPackagesToCheck (Suc 0) example_Migrator ?new
                 ''child'' ?target)"
    by code_simp
  then obtain r st' where
    run: "populatePackageJsonUpdatesAndGetPackagesToCheck (Suc 0) example_Migrator ?new
            ''child'' ?target = Inr (r, st')"
    by (cases "populatePackageJsonUpdatesAndGetPackagesToCheck (Suc 0) example_Migrator ?new
                 ''child'' ?target") auto
  from populate_fixed_point_check[OF installed_new fetched, of 0] continue run
  obtain e where "map_of (packageUpdates st') ''child'' = Some e"
    "Migrator_lte (cfg_version (bare_document ''2.0.0'')) (pu_version e)"
    by blast
  with first run show ?thesis unfolding v by blast
qed

section \<open>Claim C4: which updates the filter rejects\<close>

text \<open>
  Claim C4. For an installed package, \<open>filterPackageJsonUpdates\<close> returns, in document
  order, the updates that are not rejected and that keep at least one package, each with
  its \<open>packages\<close> replaced by the filtered ones. An update is rejected exactly when it has no
  \<open>packages\<close>, or its version is at most the installed version, or its version is greater
  than the target version; a version equal to the target version is not greater, so it is
  admitted. The filtered \<open>packages\<close> are empty exactly when no entry passes the filter of
  the entries.
\<close>

theorem filterPackageJsonUpdates_rejects_exactly:
  assumes "getPkgVersion M st packageName = Some installed"
  shows "filterPackageJsonUpdates M st packageJsonUpdates packageName targetVersion =
     Inr (map (\<lambda>u. u\<lparr>pju_packages := Some (filterPackages M st (the (pju_packages u)))\<rparr>)
           (filter (\<lambda>u. \<not> (pju_packages u = None
                            \<or> Migrator_lte (pju_version u) installed
                            \<or> Migrator_gt (pju_version u) targetVersion)
                        \<and> list_ex (keepPackageUpdate M st) (the (pju_packages u)))
                   (map snd packageJsonUpdates)))
     \<and> \<not> Migrator_gt targetVersion targetVersion
     \<and> (filterPackages M st packages = [] \<longleftrightarrow> \<not> list_ex (keepPackageUpdate M st) packages)"
proof -
  have same: "(\<lambda>u. \<not> (pju_packages u = None
                            \<or> Migrator_lte (pju_version u) installed
                            \<or> Migrator_gt (pju_version u) targetVersion)
                        \<and> list_ex (keepPackageUpdate M st) (the (pju_packages u)))
            = (\<lambda>u. pju_packages u \<noteq> None
                        \<and> \<not> Migrator_lte (pju_version u) installed
                        \<and> \<not> Migrator_gt (pju_version u) targetVersion
                        \<and> list_ex (keepPackageUpdate M st) (the (pju_packages u)))"
    by auto
  show ?thesis
    unfolding same filterPackageJsonUpdates_def
    using filterPackageJsonUpdates_loop_filter[OF assms]
    by (simp add: filterPackages_empty Migrator_gt_key)
qed

theorem filterPackageJsonUpdates_rejects_exactly_witness:
  "getPkgVersion example_Migrator (newMigratorState Map.empty) ''pkg'' = Some ''1.0.0''
   \<and> filterPackageJsonUpdates example_Migrator (newMigratorState Map.empty) example_updates
        ''pkg'' ''2.0.0''
      = Inr [candidate_update ''2.0.0''
               (Some [(''peer'', (plain_update ''3.0.0'')\<lparr>pu_addToPackageJson := AddBool False\<rparr>)])]"
proof -
  let ?st = "newMigratorState Map.empty"
  have installed: "getPkgVersion example_Migrator ?st ''pkg'' = Some ''1.0.0''" by code_simp
  have kept: "map (\<lambda>u. u\<lparr>pju_packages := Some (filterPackages example_Migrator ?st (the (pju_packages u)))\<rparr>)
           (filter (\<lambda>u. \<not> (pju_packages u = None
                            \<or> Migrator_lte (pju_version u) ''1.0.0''
                            \<or> Migrator_gt (pju_version u) ''2.0.0'')
                        \<and> list_ex (keepPackageUpdate example_Migrator ?st) (the (pju_packages u)))
                   (map snd example_updates))
        = [candidate_update ''2.0.0''
               (Some [(''peer'', (plain_update ''3.0.0'')\<lparr>pu_addToPackageJson := AddBool False\<rparr>)])]"
    by code_simp
  from filterPackageJsonUpdates_rejects_exactly[OF installed, of example_updates "''2.0.0''"]
  show ?thesis unfolding kept using installed by blast
qed

section \<open>Claim C5: the synthetic update of a package group\<close>

text \<open>
  Claim C5. The group that is expanded is the built-in legacy group when the package is
  \<open>@nrwl/workspace\<close> and semver's \<open>lt\<close> finds the target version below \<open>14.0.0-beta.0\<close>,
  whatever the document's own group is; in every other case it is the document's own
  group, empty when the document has none. Every member of the legacy group has the
  version \<open>*\<close>, except \<open>@nrwl/nx-cloud\<close>, which has \<open>latest\<close>. (\<open>lt\<close> is evaluated only for
  \<open>@nrwl/workspace\<close>; when it throws, the expansion throws.) With an empty group the
  expansion returns no order and leaves the document and the state as they are. With a
  group that is not empty it returns the packages of the group in order, the state with
  its overrides, and the document with one entry written in \<open>packageJsonUpdates\<close>, under
  the key made of the target version and \<open>--PackageGroup\<close>; the other keys keep what they
  had. That entry has the target version, and its \<open>packages\<close> hold, for each package of the
  group, the entry of its last member in the group: the target version when the member's
  version is \<open>*\<close>, the member's own version otherwise, and \<open>alwaysAddToPackageJson\<close> false.
  No other package has an entry.
\<close>

theorem package_group_expansion:
  "list_all (\<lambda>e. pg_version e = (if pg_package e = ''@nrwl/nx-cloud'' then ''latest'' else ''*''))
        LEGACY_NRWL_PACKAGE_GROUP
   \<and> (packageName = ''@nrwl/workspace'' \<and> semver_lt targetVersion ''14.0.0-beta.0'' = Inl e
      \<longrightarrow> getPackageJsonUpdatesFromPackageGroup st packageName targetVersion migrationConfig = Inl e)
   \<and> ((packageName = ''@nrwl/workspace'' \<longrightarrow> \<not> isl (semver_lt targetVersion ''14.0.0-beta.0''))
       \<and> packageGroup =
            (if packageName = ''@nrwl/workspace''
                \<and> semver_lt targetVersion ''14.0.0-beta.0'' = Inr True
             then LEGACY_NRWL_PACKAGE_GROUP
             else (case cfg_packageGroup migrationConfig of None \<Rightarrow> [] | Some own \<Rightarrow> own))
      \<longrightarrow> (if packageGroup = []
           then getPackageJsonUpdatesFromPackageGroup st packageName targetVersion migrationConfig
                  = Inr ([], migrationConfig, st)
           else (\<exists>updates synthetic packages overrides.
                   getPackageJsonUpdatesFromPackageGroup st packageName targetVersion migrationConfig
                     = Inr (map pg_package packageGroup,
                            migrationConfig\<lparr>cfg_packageJsonUpdates := Some updates\<rparr>,
                            st\<lparr>installedPkgVersionOverrides := overrides\<rparr>)
                 \<and> map_of updates (targetVersion @ ''--PackageGroup'') = Some synthetic
                 \<and> (\<forall>key. key \<noteq> targetVersion @ ''--PackageGroup''
                        \<longrightarrow> map_of updates key =
                            (case cfg_packageJsonUpdates migrationConfig of
                               None \<Rightarrow> None | Some own \<Rightarrow> map_of own key))
                 \<and> pju_version synthetic = targetVersion
                 \<and> pju_packages synthetic = Some packages
                 \<and> (\<forall>child. map_of packages child =
                       (case find (\<lambda>member. pg_package member = child) (rev packageGroup) of
                          None \<Rightarrow> None
                        | Some member \<Rightarrow>
                            Some \<lparr>pu_version = (if pg_version member = ''*'' then targetVersion
                                                 else pg_version member),
                                  pu_ifPackageInstalled = None,
                                  pu_alwaysAddToPackageJson = Some False,
                                  pu_addToPackageJson = AddUndefined\<rparr>)))))"
proof (intro conjI impI)
  show "list_all (\<lambda>e. pg_version e = (if pg_package e = ''@nrwl/nx-cloud'' then ''latest'' else ''*''))
        LEGACY_NRWL_PACKAGE_GROUP"
    by (simp add: LEGACY_NRWL_PACKAGE_GROUP_def group_entry_def)
next
  assume "packageName = ''@nrwl/workspace'' \<and> semver_lt targetVersion ''14.0.0-beta.0'' = Inl e"
  then show "getPackageJsonUpdatesFromPackageGroup st packageName targetVersion migrationConfig = Inl e"
    by (simp add: getPackageJsonUpdatesFromPackageGroup_def selectPackageGroup_def)
next
  assume a: "(packageName = ''@nrwl/workspace'' \<longrightarrow> \<not> isl (semver_lt targetVersion ''14.0.0-beta.0''))
       \<and> packageGroup =
            (if packageName = ''@nrwl/workspace''
                \<and> semver_lt targetVersion ''14.0.0-beta.0'' = Inr True
             then LEGACY_NRWL_PACKAGE_GROUP
             else (case cfg_packageGroup migrationConfig of None \<Rightarrow> [] | Some own \<Rightarrow> own))"
  have sel: "selectPackageGroup packageName targetVersion migrationConfig = Inr packageGroup"
  proof (cases "packageName = ''@nrwl/workspace''")
    case False
    with a show ?thesis by (simp add: selectPackageGroup_def)
  next
    case True
    with a obtain b where b: "semver_lt targetVersion ''14.0.0-beta.0'' = Inr b"
      by (cases "semver_lt targetVersion ''14.0.0-beta.0''") auto
    with a True show ?thesis by (cases b) (simp_all add: selectPackageGroup_def)
  qed
  obtain packages overrides where
    l: "packageGroup_loop packageName targetVersion packageGroup ([], installedPkgVersionOverrides st)
          = (packages, overrides)"
    by (cases "packageGroup_loop packageName targetVersion packageGroup
                 ([], installedPkgVersionOverrides st)") auto
  have look: "map_of packages child =
                 (case find (\<lambda>member. pg_package member = child) (rev packageGroup) of
                    None \<Rightarrow> None
                  | Some member \<Rightarrow>
                      Some \<lparr>pu_version = (if pg_version member = ''*'' then targetVersion
                                           else pg_version member),
                            pu_ifPackageInstalled = None,
                            pu_alwaysAddToPackageJson = Some False,
                            pu_addToPackageJson = AddUndefined\<rparr>)" for child
    using packageGroup_loop_lookup[of packageName targetVersion packageGroup "[]"
            "installedPkgVersionOverrides st" child]
    by (simp add: l groupPackageUpdate_def split: option.splits)
  show "if packageGroup = []
           then getPackageJsonUpdatesFromPackageGroup st packageName targetVersion migrationConfig
                  = Inr ([], migrationConfig, st)
           else (\<exists>updates synthetic packages overrides.
                   getPackageJsonUpdatesFromPackageGroup st packageName targetVersion migrationConfig
                     = Inr (map pg_package packageGroup,
                            migrationConfig\<lparr>cfg_packageJsonUpdates := Some updates\<rparr>,
                            st\<lparr>installedPkgVersionOverrides := overrides\<rparr>)
                 \<and> map_of updates (targetVersion @ ''--PackageGroup'') = Some synthetic
                 \<and> (\<forall>key. key \<noteq> targetVersion @ ''--PackageGroup''
                        \<longrightarrow> map_of updates key =
                            (case cfg_packageJsonUpdates migrationConfig of
                               None \<Rightarrow> None | Some own \<Rightarrow> map_of own key))
                 \<and> pju_version synthetic = targetVersion
                 \<and> pju_packages synthetic = Some packages
                 \<and> (\<forall>child. map_of packages child =
                       (case find (\<lambda>member. pg_package member = child) (rev packageGroup) of
                          None \<Rightarrow> None
                        | Some member \<Rightarrow>
                            Some \<lparr>pu_version = (if pg_version member = ''*'' then targetVersion
                                                 else pg_version member),
                                  pu_ifPackageInstalled = None,
                                  pu_alwaysAddToPackageJson = Some False,
                                  pu_addToPackageJson = AddUndefined\<rparr>)))"
  proof (cases "packageGroup = []")
    case True
    with sel show ?thesis by (simp add: getPackageJsonUpdatesFromPackageGroup_def)
  next
    case False
    have "getPackageJsonUpdatesFromPackageGroup st packageName targetVersion migrationConfig
            = Inr (map pg_package packageGroup,
                   migrationConfig\<lparr>cfg_packageJsonUpdates :=
                      Some (AList.update (targetVersion @ ''--PackageGroup'')
                              \<lparr>pju_version = targetVersion, pju_packages = Some packages,
                               pju_x_prompt = None, pju_requires = None\<rparr>
                              (case cfg_packageJsonUpdates migrationConfig of
                                 None \<Rightarrow> [] | Some updates \<Rightarrow> updates))\<rparr>,
                   st\<lparr>installedPkgVersionOverrides := overrides\<rparr>)"
      using sel False l by (simp add: getPackageJsonUpdatesFromPackageGroup_def)
    with False look show ?thesis
      by (auto simp: update_conv' split: option.splits)
  qed
qed

theorem package_group_expansion_witness:
  "(\<exists>updates synthetic packages overrides.
       getPackageJsonUpdatesFromPackageGroup (newMigratorState Map.empty) ''@nrwl/workspace''
          ''13.0.0''
          ((bare_document ''13.0.0'')\<lparr>cfg_packageGroup := Some [group_entry ''other'' ''1.0.0'']\<rparr>)
         = Inr (map pg_package LEGACY_NRWL_PACKAGE_GROUP,
                (bare_document ''13.0.0'')
                  \<lparr>cfg_packageGroup := Some [group_entry ''other'' ''1.0.0''],
                   cfg_packageJsonUpdates := Some updates\<rparr>,
                (newMigratorState Map.empty)\<lparr>installedPkgVersionOverrides := overrides\<rparr>)
     \<and> map_of updates ''13.0.0--PackageGroup'' = Some synthetic
     \<and> pju_packages synthetic = Some packages
     \<and> map_option pu_version (map_of packages ''@nrwl/angular'') = Some ''13.0.0''
     \<and> map_option pu_version (map_of packages ''@nrwl/nx-cloud'') = Some ''latest''
     \<and> map_of packages ''other'' = None)
   \<and> (\<exists>updates synthetic packages overrides.
       getPackageJsonUpdatesFromPackageGroup (newMigratorState Map.empty) ''pkg'' ''2.0.0''
          ((bare_document ''2.0.0'')
             \<lparr>cfg_packageGroup := Some [group_entry ''child'' ''*'', group_entry ''peer'' ''3.1.0'']\<rparr>)
         = Inr ([''child'', ''peer''],
                (bare_document ''2.0.0'')
                  \<lparr>cfg_packageGroup := Some [group_entry ''child'' ''*'', group_entry ''peer'' ''3.1.0''],
                   cfg_packageJsonUpdates := Some updates\<rparr>,
                (newMigratorState Map.empty)\<lparr>installedPkgVersionOverrides := overrides\<rparr>)
     \<and> map_of updates ''2.0.0--PackageGroup'' = Some synthetic
     \<and> pju_packages synthetic = Some packages
     \<and> map_option pu_version (map_of packages ''child'') = Some ''2.0.0''
     \<and> map_option pu_version (map_of packages ''peer'') = Some ''3.1.0''
     \<and> map_option pu_alwaysAddToPackageJson (map_of packages ''peer'') = Some (Some False))
   \<and> (\<exists>updates synthetic packages overrides.
       getPackageJsonUpdatesFromPackageGroup (newMigratorState Map.empty) ''@nrwl/workspace''
          ''15.0.0''
          ((bare_document ''15.0.0'')\<lparr>cfg_packageGroup := Some [group_entry ''other'' ''1.0.0'']\<rparr>)
         = Inr ([''other''],
                (bare_document ''15.0.0'')
                  \<lparr>cfg_packageGroup := Some [group_entry ''other'' ''1.0.0''],
                   cfg_packageJsonUpdates := Some updates\<rparr>,
                (newMigratorState Map.empty)\<lparr>installedPkgVersionOverrides := overrides\<rparr>)
     \<and> map_of updates ''15.0.0--PackageGroup'' = Some synthetic
     \<and> pju_packages synthetic = Some packages
     \<and> map_option pu_version (map_of packages ''other'') = Some ''1.0.0'')
   \<and> getPackageJsonUpdatesFromPackageGroup (newMigratorState Map.empty) ''pkg'' ''2.0.0''
         (bare_document ''2.0.0'')
       = Inr ([], bare_document ''2.0.0'', newMigratorState Map.empty)"
proof -
  let ?st = "newMigratorState Map.empty"
  let ?legacy_doc = "(bare_document ''13.0.0'')\<lparr>cfg_packageGroup := Some [group_entry ''other'' ''1.0.0'']\<rparr>"
  let ?own = "[group_entry ''child'' ''*'', group_entry ''peer'' ''3.1.0'']"
  let ?own_doc = "(bare_document ''2.0.0'')\<lparr>cfg_packageGroup := Some ?own\<rparr>"
  let ?new_doc = "(bare_document ''15.0.0'')\<lparr>cfg_packageGroup := Some [group_entry ''other'' ''1.0.0'']\<rparr>"
  have below: "semver_lt ''13.0.0'' ''14.0.0-beta.0'' = Inr True" by code_simp
  have above: "semver_lt ''15.0.0'' ''14.0.0-beta.0'' = Inr False" by code_simp
  have ne: "LEGACY_NRWL_PACKAGE_GROUP \<noteq> []" by (simp add: LEGACY_NRWL_PACKAGE_GROUP_def)
  have angular: "find (\<lambda>member. pg_package member = ''@nrwl/angular'') (rev LEGACY_NRWL_PACKAGE_GROUP)
                   = Some (group_entry ''@nrwl/angular'' ''*'')"
    by code_simp
  have cloud: "find (\<lambda>member. pg_package member = ''@nrwl/nx-cloud'') (rev LEGACY_NRWL_PACKAGE_GROUP)
                   = Some (group_entry ''@nrwl/nx-cloud'' ''latest'')"
    by code_simp
  have other: "find (\<lambda>member. pg_package member = ''other'') (rev LEGACY_NRWL_PACKAGE_GROUP) = None"
    by code_simp
  have first: "\<exists>updates synthetic packages overrides.
       getPackageJsonUpdatesFromPackageGroup ?st ''@nrwl/workspace'' ''13.0.0'' ?legacy_doc
         = Inr (map pg_package LEGACY_NRWL_PACKAGE_GROUP,
                ?legacy_doc\<lparr>cfg_packageJsonUpdates := Some updates\<rparr>,
                ?st\<lparr>installedPkgVersionOverrides := overrides\<rparr>)
     \<and> map_of updates ''13.0.0--PackageGroup'' = Some synthetic
     \<and> pju_packages synthetic = Some packages
     \<and> map_option pu_version (map_of packages ''@nrwl/angular'') = Some ''13.0.0''
     \<and> map_option pu_version (map_of packages ''@nrwl/nx-cloud'') = Some ''latest''
     \<and> map_of packages ''other'' = None"
  proof -
    from package_group_expansion[of "''@nrwl/workspace''" "''13.0.0''" _ ?st ?legacy_doc
           LEGACY_NRWL_PACKAGE_GROUP] below ne
    obtain updates synthetic packages overrides where
      r: "getPackageJsonUpdatesFromPackageGroup ?st ''@nrwl/workspace'' ''13.0.0'' ?legacy_doc
            = Inr (map pg_package LEGACY_NRWL_PACKAGE_GROUP,
                   ?legacy_doc\<lparr>cfg_packageJsonUpdates := Some updates\<rparr>,
                   ?st\<lparr>installedPkgVersionOverrides := overrides\<rparr>)"
         "map_of updates (''13.0.0'' @ ''--PackageGroup'') = Some synthetic"
         "pju_packages synthetic = Some packages"
      and look: "\<forall>child. map_of packages child =
                   (case find (\<lambda>member. pg_package member = child) (rev LEGACY_NRWL_PACKAGE_GROUP) of
                      None \<Rightarrow> None
                    | Some member \<Rightarrow>
                        Some \<lparr>pu_version = (if pg_version member = ''*'' then ''13.0.0''
                                             else pg_version member),
                              pu_ifPackageInstalled = None,
                              pu_alwaysAddToPackageJson = Some False,
                              pu_addToPackageJson = AddUndefined\<rparr>)"
      by auto
    have a: "map_option pu_version (map_of packages ''@nrwl/angular'') = Some ''13.0.0''"
      using look[rule_format, of "''@nrwl/angular''"] by (simp add: angular group_entry_def)
    have c: "map_option pu_version (map_of packages ''@nrwl/nx-cloud'') = Some ''latest''"
      using look[rule_format, of "''@nrwl/nx-cloud''"] by (simp add: cloud group_entry_def)
    have o: "map_of packages ''other'' = None"
      using look[rule_format, of "''other''"] by (simp add: other)
    from r a c o show ?thesis by auto
  qed
  have second: "\<exists>updates synthetic packages overrides.
       getPackageJsonUpdatesFromPackageGroup ?st ''pkg'' ''2.0.0'' ?own_doc
         = Inr ([''child'', ''peer''],
                ?own_doc\<lparr>cfg_packageJsonUpdates := Some updates\<rparr>,
                ?st\<lparr>installedPkgVersionOverrides := overrides\<rparr>)
     \<and> map_of updates ''2.0.0--PackageGroup'' = Some synthetic
     \<and> pju_packages synthetic = Some packages
     \<and> map_option pu_version (map_of packages ''child'') = Some ''2.0.0''
     \<and> map_option pu_version (map_of packages ''peer'') = Some ''3.1.0''
     \<and> map_option pu_alwaysAddToPackageJson (map_of packages ''peer'') = Some (Some False)"
  proof -
    have g: "?own = (if ''pkg'' = ''@nrwl/workspace''
                        \<and> semver_lt ''2.0.0'' ''14.0.0-beta.0'' = Inr True
                     then LEGACY_NRWL_PACKAGE_GROUP
                     else (case cfg_packageGroup ?own_doc of None \<Rightarrow> [] | Some own \<Rightarrow> own))"
      by simp
    from package_group_expansion[of "''pkg''" "''2.0.0''" _ ?st ?own_doc ?own] g
    obtain updates synthetic packages overrides where
      r: "getPackageJsonUpdatesFromPackageGroup ?st ''pkg'' ''2.0.0'' ?own_doc
            = Inr (map pg_package ?own,
                   ?own_doc\<lparr>cfg_packageJsonUpdates := Some updates\<rparr>,
                   ?st\<lparr>installedPkgVersionOverrides := overrides\<rparr>)"
         "map_of updates (''2.0.0'' @ ''--PackageGroup'') = Some synthetic"
         "pju_packages synthetic = Some packages"
      and look: "\<forall>child. map_of packages child =
                   (case find (\<lambda>member. pg_package member = child) (rev ?own) of
                      None \<Rightarrow> None
                    | Some member \<Rightarrow>
                        Some \<lparr>pu_version = (if pg_version member = ''*'' then ''2.0.0''
                                             else pg_version member),
                              pu_ifPackageInstalled = None,
                              pu_alwaysAddToPackageJson = Some False,
                              pu_addToPackageJson = AddUndefined\<rparr>)"
      by auto
    have c: "map_option pu_version (map_of packages ''child'') = Some ''2.0.0''"
      using look[rule_format, of "''child''"] by (simp add: group_entry_def)
    have p: "map_option pu_version (map_of packages ''peer'') = Some ''3.1.0''"
      "map_option pu_alwaysAddToPackageJson (map_of packages ''peer'') = Some (Some False)"
      using look[rule_format, of "''peer''"] by (simp_all add: group_entry_def)
    from r c p show ?thesis by (auto simp: group_entry_def)
  qed
  have third: "\<exists>updates synthetic packages overrides.
       getPackageJsonUpdatesFromPackageGroup ?st ''@nrwl/workspace'' ''15.0.0'' ?new_doc
         = Inr ([''other''],
                ?new_doc\<lparr>cfg_packageJsonUpdates := Some updates\<rparr>,
                ?st\<lparr>installedPkgVersionOverrides := overrides\<rparr>)
     \<and> map_of updates ''15.0.0--PackageGroup'' = Some synthetic
     \<and> pju_packages synthetic = Some packages
     \<and> map_option pu_version (map_of packages ''other'') = Some ''1.0.0''"
  proof -
    from package_group_expansion[of "''@nrwl/workspace''" "''15.0.0''" _ ?st ?new_doc
           "[group_entry ''other'' ''1.0.0'']"] above
    obtain updates synthetic packages overrides where
      r: "getPackageJsonUpdatesFromPackageGroup ?st ''@nrwl/workspace'' ''15.0.0'' ?new_doc
            = Inr (map pg_package [group_entry ''other'' ''1.0.0''],
                   ?new_doc\<lparr>cfg_packageJsonUpdates := Some updates\<rparr>,
                   ?st\<lparr>installedPkgVersionOverrides := overrides\<rparr>)"
         "map_of updates (''15.0.0'' @ ''--PackageGroup'') = Some synthetic"
         "pju_packages synthetic = Some packages"
      and look: "\<forall>child. map_of packages child =
                   (case find (\<lambda>member. pg_package member = child)
                           (rev [group_entry ''other'' ''1.0.0'']) of
                      None \<Rightarrow> None
                    | Some member \<Rightarrow>
                        Some \<lparr>pu_version = (if pg_version member = ''*'' then ''15.0.0''
                                             else pg_version member),
                              pu_ifPackageInstalled = None,
                              pu_alwaysAddToPackageJson = Some False,
                              pu_addToPackageJson = AddUndefined\<rparr>)"
      by auto
    have o: "map_option pu_version (map_of packages ''other'') = Some ''1.0.0''"
      using look[rule_format, of "''other''"] by (simp add: group_entry_def)
    from r o show ?thesis by (auto simp: group_entry_def)
  qed
  have fourth: "getPackageJsonUpdatesFromPackageGroup ?st ''pkg'' ''2.0.0'' (bare_document ''2.0.0'')
                  = Inr ([], bare_document ''2.0.0'', ?st)"
    using package_group_expansion[of "''pkg''" "''2.0.0''" _ ?st "bare_document ''2.0.0''" "[]"]
    by (simp add: bare_document_def)
  from first second third fourth show ?thesis by blast
qed

section \<open>Claim C6: the gate of excludeAppliedMigrations\<close>



section \<open>Claim C7: normalizeVersion tries its variations in turn\<close>

text \<open>
  Claim C7, as the code has it. \<open>normalizeVersion\<close> never throws, and what it returns is
  always a string that the constructor of \<open>SemVer\<close> accepts. It returns \<open>0.0.0\<close> for the
  empty string and for every string whose first character is not a digit, \<open>v\<close>, \<open>.\<close> or
  white space; that covers a string with only a prerelease part, such as \<open>-beta.1\<close> or
  \<open>beta.1\<close>. For a string of digits \<open>n\<close> it returns \<open>n.0.0\<close> when \<open>n\<close> has no leading zero and
  \<open>0 < n \<le> MAX_SAFE_INTEGER\<close>, and \<open>0.0.0\<close> otherwise. A string without \<open>-\<close> that has exactly
  three dot-separated parts, none of them empty, and that semver's \<open>gt\<close> accepts as greater
  than \<open>0.0.0\<close> is returned unchanged, with or without a leading \<open>v\<close>.

  In general, let the main part be the text before the first \<open>-\<close> and the tag the text
  between the first \<open>-\<close> and the second (or the end); let major, minor and patch be the first
  three dot-separated parts of the main part, each replaced by \<open>0\<close> when it is missing or
  empty. Then \<open>normalizeVersion\<close> returns the first of \<open>major.minor.patch-tag\<close> (without
  \<open>-tag\<close> when the tag is empty), \<open>major.minor.patch\<close>, \<open>major.minor.0\<close> and \<open>major.0.0\<close> on
  which \<open>gt\<close> against \<open>0.0.0\<close> returns true, and \<open>0.0.0\<close> when it returns false or throws on
  all four.
\<close>

theorem normalizeVersion_first_variation_above_zero:
  "parseSemVer (normalizeVersion version) \<noteq> None
   \<and> normalizeVersion version =
       (let main = takeWhile (\<lambda>x. x \<noteq> CHR ''-'') version;
            tag = takeWhile (\<lambda>x. x \<noteq> CHR ''-'')
                    (drop 1 (dropWhile (\<lambda>x. x \<noteq> CHR ''-'') version));
            afterMajor = drop 1 (dropWhile (\<lambda>x. x \<noteq> CHR ''.'') main);
            afterMinor = drop 1 (dropWhile (\<lambda>x. x \<noteq> CHR ''.'') afterMajor);
            fill = (\<lambda>part. if part = [] then ''0'' else part);
            major = fill (takeWhile (\<lambda>x. x \<noteq> CHR ''.'') main);
            minor = fill (takeWhile (\<lambda>x. x \<noteq> CHR ''.'') afterMajor);
            patch = fill (takeWhile (\<lambda>x. x \<noteq> CHR ''.'') afterMinor)
        in case find (\<lambda>variation. semver_gt variation ''0.0.0'' = Inr True)
                  [if tag = [] then major @ ''.'' @ minor @ ''.'' @ patch
                   else major @ ''.'' @ minor @ ''.'' @ patch @ ''-'' @ tag,
                   major @ ''.'' @ minor @ ''.'' @ patch,
                   major @ ''.'' @ minor @ ''.0'',
                   major @ ''.0.0''] of
             Some variation \<Rightarrow> variation
           | None \<Rightarrow> ''0.0.0'')
   \<and> normalizeVersion [] = ''0.0.0''
   \<and> (\<not> is_digit first \<and> first \<noteq> CHR ''v'' \<and> first \<noteq> CHR ''.'' \<and> \<not> is_space first
        \<longrightarrow> normalizeVersion (first # rest) = ''0.0.0'')
   \<and> (all_digits n
        \<longrightarrow> normalizeVersion n =
              (if numericIdentifier n \<and> 0 < to_number n \<and> to_number n \<le> MAX_SAFE_INTEGER
               then n @ ''.0.0'' else ''0.0.0''))
   \<and> (CHR ''-'' \<notin> set full \<and> js_split CHR ''.'' full = [a, b, c]
        \<and> a \<noteq> [] \<and> b \<noteq> [] \<and> c \<noteq> [] \<and> semver_gt full ''0.0.0'' = Inr True
        \<longrightarrow> normalizeVersion full = full)"
proof -
  have valid: "parseSemVer (normalizeVersion version) \<noteq> None"
    by (rule normalizeVersion_valid)
  have general: "normalizeVersion version =
       (let main = takeWhile (\<lambda>x. x \<noteq> CHR ''-'') version;
            tag = takeWhile (\<lambda>x. x \<noteq> CHR ''-'')
                    (drop 1 (dropWhile (\<lambda>x. x \<noteq> CHR ''-'') version));
            afterMajor = drop 1 (dropWhile (\<lambda>x. x \<noteq> CHR ''.'') main);
            afterMinor = drop 1 (dropWhile (\<lambda>x. x \<noteq> CHR ''.'') afterMajor);
            fill = (\<lambda>part. if part = [] then ''0'' else part);
            major = fill (takeWhile (\<lambda>x. x \<noteq> CHR ''.'') main);
            minor = fill (takeWhile (\<lambda>x. x \<noteq> CHR ''.'') afterMajor);
            patch = fill (takeWhile (\<lambda>x. x \<noteq> CHR ''.'') afterMinor)
        in case find (\<lambda>variation. semver_gt variation ''0.0.0'' = Inr True)
                  [if tag = [] then major @ ''.'' @ minor @ ''.'' @ patch
                   else major @ ''.'' @ minor @ ''.'' @ patch @ ''-'' @ tag,
                   major @ ''.'' @ minor @ ''.'' @ patch,
                   major @ ''.'' @ minor @ ''.0'',
                   major @ ''.0.0''] of
             Some variation \<Rightarrow> variation
           | None \<Rightarrow> ''0.0.0'')"
    by (simp only: normalizeVersion_def firstAboveZero_find variationsToCheck_parts Let_def)
  have empty: "normalizeVersion [] = ''0.0.0''"
    by code_simp
  have other: "normalizeVersion (first # rest) = ''0.0.0''"
    if "\<not> is_digit first" "first \<noteq> CHR ''v''" "first \<noteq> CHR ''.''" "\<not> is_space first"
    using that by (rule normalizeVersion_other_start)
  have single: "normalizeVersion n =
              (if numericIdentifier n \<and> 0 < to_number n \<and> to_number n \<le> MAX_SAFE_INTEGER
               then n @ ''.0.0'' else ''0.0.0'')"
    if "all_digits n"
    using that by (rule normalizeVersion_digits)
  have unchanged: "normalizeVersion full = full"
    if "CHR ''-'' \<notin> set full" "js_split CHR ''.'' full = [a, b, c]"
      "a \<noteq> []" "b \<noteq> []" "c \<noteq> []" "semver_gt full ''0.0.0'' = Inr True"
    using that by (rule normalizeVersion_unchanged)
  from valid general empty other single unchanged show ?thesis by blast
qed

theorem normalizeVersion_first_variation_above_zero_witness:
  "normalizeVersion ''14'' = ''14.0.0''
   \<and> normalizeVersion ''007'' = ''0.0.0''
   \<and> normalizeVersion ''0'' = ''0.0.0''
   \<and> normalizeVersion ''-beta.1'' = ''0.0.0''
   \<and> normalizeVersion ''beta.1'' = ''0.0.0''
   \<and> normalizeVersion ''v14.0.0'' = ''v14.0.0''
   \<and> normalizeVersion ''v14'' = ''v14.0.0''
   \<and> normalizeVersion ''1.2.3-rc.1-x'' = ''1.2.3-rc.1''
   \<and> normalizeVersion ''1.2.x'' = ''1.2.0''
   \<and> parseSemVer (normalizeVersion ''not a version'') \<noteq> None"
proof -
  have d14: "all_digits ''14''" and d007: "all_digits ''007''" and d0: "all_digits ''0''"
    by code_simp+
  have c14: "numericIdentifier ''14'' \<and> 0 < to_number ''14'' \<and> to_number ''14'' \<le> MAX_SAFE_INTEGER"
    by code_simp
  have c007: "\<not> numericIdentifier ''007''" by code_simp
  have c0: "\<not> 0 < to_number ''0''" by code_simp
  have dash: "\<not> is_digit CHR ''-'' \<and> CHR ''-'' \<noteq> CHR ''v'' \<and> CHR ''-'' \<noteq> CHR ''.''
                \<and> \<not> is_space CHR ''-''"
    by code_simp
  have letter: "\<not> is_digit CHR ''b'' \<and> CHR ''b'' \<noteq> CHR ''v'' \<and> CHR ''b'' \<noteq> CHR ''.''
                \<and> \<not> is_space CHR ''b''"
    by code_simp
  have v: "CHR ''-'' \<notin> set ''v14.0.0'' \<and> js_split CHR ''.'' ''v14.0.0'' = [''v14'', ''0'', ''0'']
             \<and> ''v14'' \<noteq> [] \<and> ''0'' \<noteq> [] \<and> ''0'' \<noteq> []
             \<and> semver_gt ''v14.0.0'' ''0.0.0'' = Inr True"
    by code_simp
  note valid = normalizeVersion_first_variation_above_zero[THEN conjunct1]
  note general = normalizeVersion_first_variation_above_zero[THEN conjunct2, THEN conjunct1]
  note other = normalizeVersion_first_variation_above_zero
    [THEN conjunct2, THEN conjunct2, THEN conjunct2, THEN conjunct1, rule_format]
  note single = normalizeVersion_first_variation_above_zero
    [THEN conjunct2, THEN conjunct2, THEN conjunct2, THEN conjunct2, THEN conjunct1, rule_format]
  note unchanged = normalizeVersion_first_variation_above_zero
    [THEN conjunct2, THEN conjunct2, THEN conjunct2, THEN conjunct2, THEN conjunct2, rule_format]
  have i1: "normalizeVersion ''14'' = ''14.0.0''"
    using single[OF d14] c14 by simp
  have i2: "normalizeVersion ''007'' = ''0.0.0''"
    using single[OF d007] c007 by simp
  have i3: "normalizeVersion ''0'' = ''0.0.0''"
    using single[OF d0] c0 by simp
  have i4: "normalizeVersion ''-beta.1'' = ''0.0.0''"
    by (rule other[OF dash])
  have i5: "normalizeVersion ''beta.1'' = ''0.0.0''"
    by (rule other[OF letter])
  have i6: "normalizeVersion ''v14.0.0'' = ''v14.0.0''"
    by (rule unchanged[OF v])
  have i7: "normalizeVersion ''v14'' = ''v14.0.0''"
    by (subst general) code_simp
  have i8: "normalizeVersion ''1.2.3-rc.1-x'' = ''1.2.3-rc.1''"
    by (subst general) code_simp
  have i9: "normalizeVersion ''1.2.x'' = ''1.2.0''"
    by (subst general) code_simp
  have i10: "parseSemVer (normalizeVersion ''not a version'') \<noteq> None"
    by (rule valid)
  from i1 i2 i3 i4 i5 i6 i7 i8 i9 i10 show ?thesis by blast
qed

text \<open>
  The claim as stated asks for \<open>0.0.0\<close> on a single integer and on a \<open>v\<close>-prefixed version;
  the code fills the missing components of the first and accepts the second as it is.
\<close>

theorem normalizeVersion_single_integer_counterexample:
  "normalizeVersion ''14'' \<noteq> ''0.0.0'' \<and> normalizeVersion ''v14.0.0'' \<noteq> ''0.0.0''"
proof -
  have c: "normalizeVersion ''14'' = ''14.0.0''" by code_simp
  have d: "normalizeVersion ''v14.0.0'' = ''v14.0.0''" by code_simp
  show ?thesis unfolding c d by simp
qed

section \<open>Claim C8: the split-configuration migration in the migrations file\<close>

text \<open>
  Claim C8, as the code has it. \<open>migrations.json\<close> is created only when the planner emitted
  at least one migration; with none, no file is written, whatever the plan. When it is
  written and the plan has \<open>@nrwl/workspace\<close> at a version that semver's \<open>gte\<close> finds at
  least \<open>15.7.0-beta.0\<close>, and the version that \<open>package.json\<close> declared for \<open>nx\<close> (or, without
  it, for \<open>@nrwl/workspace\<close>) is one that semver's \<open>lt\<close> finds below \<open>15.7.0-beta.0\<close>, the
  file holds the hard-coded migration followed by the planner's migrations. A file written
  when that condition fails holds the planner's migrations only. The hard-coded migration
  has the version \<open>15.7.0-beta.0\<close>, the package \<open>@nrwl/workspace\<close>, the name
  \<open>15-7-0-split-configuration-into-project-json-files\<close> and the cli \<open>nx\<close>.
\<close>

theorem migrationsFile_split_configuration:
  "(migrations = [] \<longrightarrow> migrationsFileContents from_version plan migrations = Inr None)
   \<and> (migrations \<noteq> []
       \<and> map_of plan ''@nrwl/workspace'' = Some planned
       \<and> semver_gte (pu_version planned) ''15.7.0-beta.0'' = Inr True
       \<and> from_version = Some installed
       \<and> semver_lt installed ''15.7.0-beta.0'' = Inr True
      \<longrightarrow> migrationsFileContents from_version plan migrations
            = Inr (Some (splitConfigurationMigration # migrations)))
   \<and> (migrationsFileContents from_version plan migrations = Inr (Some written)
       \<and> \<not> (\<exists>planned installed.
               map_of plan ''@nrwl/workspace'' = Some planned
             \<and> semver_gte (pu_version planned) ''15.7.0-beta.0'' = Inr True
             \<and> from_version = Some installed
             \<and> semver_lt installed ''15.7.0-beta.0'' = Inr True)
      \<longrightarrow> written = migrations)
   \<and> mig_version splitConfigurationMigration = Some ''15.7.0-beta.0''
   \<and> mig_package splitConfigurationMigration = ''@nrwl/workspace''
   \<and> mig_name splitConfigurationMigration = ''15-7-0-split-configuration-into-project-json-files''
   \<and> mig_cli splitConfigurationMigration = Some ''nx''
   \<and> mig_implementation splitConfigurationMigration
       = Some ''./src/migrations/update-15-7-0/split-configuration-into-project-json-files''"
proof (intro conjI impI)
  assume "migrations = []"
  then show "migrationsFileContents from_version plan migrations = Inr None"
    by (simp add: migrationsFileContents_def)
next
  assume "migrations \<noteq> []
       \<and> map_of plan ''@nrwl/workspace'' = Some planned
       \<and> semver_gte (pu_version planned) ''15.7.0-beta.0'' = Inr True
       \<and> from_version = Some installed
       \<and> semver_lt installed ''15.7.0-beta.0'' = Inr True"
  then show "migrationsFileContents from_version plan migrations
            = Inr (Some (splitConfigurationMigration # migrations))"
    by (simp add: migrationsFileContents_def addSplitConfigurationMigrationIfAvailable_def)
next
  assume "migrationsFileContents from_version plan migrations = Inr (Some written)
       \<and> \<not> (\<exists>planned installed.
               map_of plan ''@nrwl/workspace'' = Some planned
             \<and> semver_gte (pu_version planned) ''15.7.0-beta.0'' = Inr True
             \<and> from_version = Some installed
             \<and> semver_lt installed ''15.7.0-beta.0'' = Inr True)"
  then show "written = migrations"
    by (auto simp: migrationsFileContents_def addSplitConfigurationMigrationIfAvailable_def
             split: if_splits option.splits sum.splits bool.splits)
qed (simp_all add: splitConfigurationMigration_def)

theorem migrationsFile_split_configuration_witness:
  "readNxVersion nx_packageJson = Some ''15.6.0''
   \<and> migrationsFileContents (readNxVersion nx_packageJson)
        [(''@nrwl/workspace'', plain_update ''15.8.0'')]
        [withPackageAndName (plain_migration ''15.8.0'' None) ''@nrwl/workspace'' ''m'']
      = Inr (Some [splitConfigurationMigration,
                   withPackageAndName (plain_migration ''15.8.0'' None) ''@nrwl/workspace'' ''m''])
   \<and> migrationsFileContents (Some ''15.7.0'')
        [(''@nrwl/workspace'', plain_update ''15.8.0'')]
        [withPackageAndName (plain_migration ''15.8.0'' None) ''@nrwl/workspace'' ''m'']
      = Inr (Some [withPackageAndName (plain_migration ''15.8.0'' None) ''@nrwl/workspace'' ''m''])"
proof -
  let ?plan = "[(''@nrwl/workspace'', plain_update ''15.8.0'')]"
  let ?m = "withPackageAndName (plain_migration ''15.8.0'' None) ''@nrwl/workspace'' ''m''"
  have from_v: "readNxVersion nx_packageJson = Some ''15.6.0''" by code_simp
  have applies: "[?m] \<noteq> []
       \<and> map_of ?plan ''@nrwl/workspace'' = Some (plain_update ''15.8.0'')
       \<and> semver_gte (pu_version (plain_update ''15.8.0'')) ''15.7.0-beta.0'' = Inr True
       \<and> Some ''15.6.0'' = Some ''15.6.0''
       \<and> semver_lt ''15.6.0'' ''15.7.0-beta.0'' = Inr True"
    by code_simp
  have first: "migrationsFileContents (Some ''15.6.0'') ?plan [?m]
                 = Inr (Some (splitConfigurationMigration # [?m]))"
    using migrationsFile_split_configuration[of "[?m]" "Some ''15.6.0''" ?plan
            "plain_update ''15.8.0''" "''15.6.0''"] applies
    by blast
  have written: "migrationsFileContents (Some ''15.7.0'') ?plan [?m] = Inr (Some [?m])"
    by code_simp
  from first written show ?thesis unfolding from_v by simp
qed

text \<open>
  The claim as stated promises the hard-coded migration at the head of the file whenever
  the plan crosses 15.7.0-beta.0. From 15.6.0 to 15.8.0 with no migration from the
  planner, the file is not created.
\<close>

theorem migrationsFile_not_written_counterexample:
  "semver_gte ''15.8.0'' ''15.7.0-beta.0'' = Inr True
   \<and> semver_lt ''15.6.0'' ''15.7.0-beta.0'' = Inr True
   \<and> map_of [(''@nrwl/workspace'', plain_update ''15.8.0'')] ''@nrwl/workspace''
       = Some (plain_update ''15.8.0'')
   \<and> pu_version (plain_update ''15.8.0'') = ''15.8.0''
   \<and> migrationsFileContents (Some ''15.6.0'') [(''@nrwl/workspace'', plain_update ''15.8.0'')] []
       = Inr None"
proof -
  have a: "semver_gte ''15.8.0'' ''15.7.0-beta.0'' = Inr True" by code_simp
  have b: "semver_lt ''15.6.0'' ''15.7.0-beta.0'' = Inr True" by code_simp
  have c: "map_of [(''@nrwl/workspace'', plain_update ''15.8.0'')] ''@nrwl/workspace''
       = Some (plain_update ''15.8.0'')"
    by simp
  have d: "pu_version (plain_update ''15.8.0'') = ''15.8.0''" by (simp add: plain_update_def)
  have e: "migrationsFileContents (Some ''15.6.0'') [(''@nrwl/workspace'', plain_update ''15.8.0'')] []
       = Inr None"
    by (simp add: migrationsFileContents_def)
  from a b c d e show ?thesis by blast
qed

section \<open>The target package of a bare version\<close>

text \<open>
  Claim C9. For an argument without \<open>@\<close> that is \<open>latest\<close>, \<open>next\<close>, a valid version or a
  partial version of one to three numbers, \<open>parseTargetPackageAndVersion\<close> returns: for
  the two tags the package \<open>nx\<close> and the tag itself; otherwise the normalized version, with
  the package \<open>@nrwl/workspace\<close> when that version is below \<open>14.0.0-beta.0\<close> and \<open>nx\<close>
  when it is not.
\<close>

theorem parseTargetPackageAndVersion_bare_version:
  assumes "CHR ''@'' \<notin> set args"
    and "args = ''latest'' \<or> args = ''next'' \<or> semver_valid args \<or> partialVersion args"
  shows "parseTargetPackageAndVersion args =
     Inr (if args = ''latest'' \<or> args = ''next'' then (''nx'', args)
          else if semver_lt (normalizeVersion args) ''14.0.0-beta.0'' = Inr True
          then (''@nrwl/workspace'', normalizeVersion args)
          else (''nx'', normalizeVersion args))"
proof -
  from assms(2) have ne: "args \<noteq> []"
    using parseSemVer_empty partialVersion_empty by (auto simp: semver_valid_def)
  obtain r where r: "semver_lt (normalizeVersion args) ''14.0.0-beta.0'' = Inr r"
    using semver_lt_normalized_total[OF parse_threshold_14] by blast
  show ?thesis
    using assms ne r
    by (cases r) (auto simp: parseTargetPackageAndVersion_def normalizeVersionWithTagCheck_def)
qed

theorem parseTargetPackageAndVersion_bare_version_witness:
  "parseTargetPackageAndVersion ''13'' = Inr (''@nrwl/workspace'', ''13.0.0'')
   \<and> parseTargetPackageAndVersion ''15'' = Inr (''nx'', ''15.0.0'')
   \<and> parseTargetPackageAndVersion ''next'' = Inr (''nx'', ''next'')"
proof -
  have a13: "CHR ''@'' \<notin> set ''13''" by simp
  have b13: "''13'' = ''latest'' \<or> ''13'' = ''next'' \<or> semver_valid ''13'' \<or> partialVersion ''13''"
    by code_simp
  have n13: "normalizeVersion ''13'' = ''13.0.0''" by code_simp
  have l13: "semver_lt ''13.0.0'' ''14.0.0-beta.0'' = Inr True" by code_simp
  have a15: "CHR ''@'' \<notin> set ''15''" by simp
  have b15: "''15'' = ''latest'' \<or> ''15'' = ''next'' \<or> semver_valid ''15'' \<or> partialVersion ''15''"
    by code_simp
  have n15: "normalizeVersion ''15'' = ''15.0.0''" by code_simp
  have l15: "semver_lt ''15.0.0'' ''14.0.0-beta.0'' = Inr False" by code_simp
  have an: "CHR ''@'' \<notin> set ''next''" by simp
  have bn: "''next'' = ''latest'' \<or> ''next'' = ''next'' \<or> semver_valid ''next'' \<or> partialVersion ''next''"
    by simp
  from parseTargetPackageAndVersion_bare_version[OF a13 b13]
       parseTargetPackageAndVersion_bare_version[OF a15 b15]
       parseTargetPackageAndVersion_bare_version[OF an bn]
  show ?thesis by (simp add: n13 l13 n15 l15)
qed

section \<open>Claim C10: a package that is not installed\<close>

text \<open>
  Claim C10. When \<open>getPkgVersion\<close> gives nothing for the target package, then whatever the
  \<open>--to\<close> overrides are, the call returns the empty list, so nothing is visited below the
  package, and its state is the one \<open>addPackageUpdate\<close> leaves for the entry with
  \<open>target.version\<close>: the plan has the package with that version, unless it already had it
  with a version that \<open>target.version\<close> does not exceed.
\<close>

theorem populate_not_installed_records_target_version:
  assumes "\<not> truthy (getPkgVersion M st targetPackage)"
  shows "populatePackageJsonUpdatesAndGetPackagesToCheck (Suc fuel) (M\<lparr>to_versions := t\<rparr>) st
           targetPackage target =
         Inr ([], addPackageUpdate st targetPackage
                    \<lparr>pu_version = pu_version target,
                     pu_ifPackageInstalled = None,
                     pu_alwaysAddToPackageJson = None,
                     pu_addToPackageJson = or_false (pu_addToPackageJson target)\<rparr>)
       \<and> (\<exists>e. map_of (packageUpdates (addPackageUpdate st targetPackage
                    \<lparr>pu_version = pu_version target,
                     pu_ifPackageInstalled = None,
                     pu_alwaysAddToPackageJson = None,
                     pu_addToPackageJson = or_false (pu_addToPackageJson target)\<rparr>)) targetPackage
                = Some e
              \<and> (pu_version e = pu_version target
                  \<or> (map_of (packageUpdates st) targetPackage = Some e
                      \<and> \<not> Migrator_gt (pu_version target) (pu_version e))))"
  using assms
  by (auto simp: addPackageUpdate_def update_conv' split: option.splits)

theorem populate_not_installed_records_target_version_witness:
  "\<not> truthy (getPkgVersion example_Migrator (newMigratorState Map.empty) ''newdep'')
   \<and> (case populatePackageJsonUpdatesAndGetPackagesToCheck (Suc 0)
              (example_Migrator\<lparr>to_versions := [''newdep'' \<mapsto> ''9.9.9'']\<rparr>)
              (newMigratorState Map.empty) ''newdep'' (plain_update ''1.1.0'') of
         Inl e \<Rightarrow> False
       | Inr (pkgs, st') \<Rightarrow> pkgs = [] \<and> plan_versions (packageUpdates st') = [(''newdep'', ''1.1.0'')])"
proof -
  have absent: "\<not> truthy (getPkgVersion example_Migrator (newMigratorState Map.empty) ''newdep'')"
    by code_simp
  have plan: "plan_versions (packageUpdates (addPackageUpdate (newMigratorState Map.empty) ''newdep''
                    \<lparr>pu_version = pu_version (plain_update ''1.1.0''),
                     pu_ifPackageInstalled = None,
                     pu_alwaysAddToPackageJson = None,
                     pu_addToPackageJson = or_false (pu_addToPackageJson (plain_update ''1.1.0''))\<rparr>))
              = [(''newdep'', ''1.1.0'')]"
    by code_simp
  from populate_not_installed_records_target_version[OF absent, of 0 "[''newdep'' \<mapsto> ''9.9.9'']"
         "plain_update ''1.1.0''"]
  have "populatePackageJsonUpdatesAndGetPackagesToCheck (Suc 0)
              (example_Migrator\<lparr>to_versions := [''newdep'' \<mapsto> ''9.9.9'']\<rparr>)
              (newMigratorState Map.empty) ''newdep'' (plain_update ''1.1.0'') =
         Inr ([], addPackageUpdate (newMigratorState Map.empty) ''newdep''
                    \<lparr>pu_version = pu_version (plain_update ''1.1.0''),
                     pu_ifPackageInstalled = None,
                     pu_alwaysAddToPackageJson = None,
                     pu_addToPackageJson = or_false (pu_addToPackageJson (plain_update ''1.1.0''))\<rparr>)"
    by blast
  with absent plan show ?thesis by simp
qed

end
